theory Spec2Isabelle
  imports Main "HOL-Library.AList" "HOL-Library.Char_ord" "HOL-Library.List_Lexorder" "HOL-Library.Product_Lexorder"
begin

section \<open>The release registry of \<open>api-server/apiserver.py\<close>\<close>

text \<open>
  The registry is a read-only tree of JSON documents. The class \<open>Registry\<close> reads it
  through three primitives only: \<open>open\<close> followed by \<open>json.load\<close>, \<open>os.listdir\<close> and
  \<open>os.path.exists\<close>. The embedding takes the three primitives as the fields of a record,
  so that every way in which the operating system can answer (missing file, missing
  directory, permission error, a file that is no JSON document) is an input of the
  model. Every operation returns its result together with the list of the filesystem
  accesses it made, in the order of the source; an exception of the source is the left
  summand of the result.
\<close>

subsection \<open>Values, errors and the filesystem\<close>

text \<open>What \<open>json.load\<close> returns. An object is the parsed dictionary, read with \<open>map_of\<close>.\<close>

datatype json =
    JNull
  | JBool bool
  | JNum int
  | JStr string
  | JArr "json list"
  | JObj "(string \<times> json) list"

text \<open>The subclasses of \<open>OSError\<close> that the registry can meet; \<open>except (IOError, OSError)\<close>
  catches each of them.\<close>

datatype os_error = FileNotFoundError | NotADirectoryError | IsADirectoryError | PermissionError

text \<open>The exceptions that leave an operation. \<open>InvalidPathComponent\<close> and the decoding
  error of \<open>json.load\<close> are subclasses of \<open>ValueError\<close>, none of them is an \<open>OSError\<close>.\<close>

datatype error =
    InvalidPathComponent
  | OSError os_error
  | JSONDecodeError
  | KeyError
  | TypeError
  | AttributeError
  | ValueError

text \<open>The content of a file as \<open>json.load\<close> sees it: a document, or text that does not decode.\<close>

datatype file_content = Doc json | Garbage

datatype fs_event = Open string | Listdir string | Exists string

record filesystem =
  fs_open :: "string \<Rightarrow> os_error + file_content"
  fs_listdir :: "string \<Rightarrow> os_error + string list"
  fs_exists :: "string \<Rightarrow> bool"

type_synonym 'a io = "(error + 'a) \<times> fs_event list"

text \<open>\<open>after t m\<close>: the accesses \<open>t\<close> were made, then \<open>m\<close> ran.\<close>

definition after :: "fs_event list \<Rightarrow> 'a io \<Rightarrow> 'a io" where
  "after t m = (fst m, t @ snd m)"

text \<open>\<open>class PackageInfo\<close>: a wrapper around the loaded document.\<close>

datatype PackageInfo = PackageInfo (to_json: json)

subsection \<open>Strings\<close>

text \<open>\<open>str.split(sep)\<close> for a separator of one character; the result is never empty.\<close>

fun split_on :: "char \<Rightarrow> string \<Rightarrow> string list" where
  "split_on c [] = [[]]"
| "split_on c (x # xs) =
     (if x = c then [] # split_on c xs
      else (case split_on c xs of
              [] \<Rightarrow> [[x]]
            | w # ws \<Rightarrow> (x # w) # ws))"

text \<open>\<open>canonical.split(':', 1)\<close> on a string that contains a colon.\<close>

definition split_colon :: "string \<Rightarrow> string \<times> string" where
  "split_colon canonical =
     (takeWhile (\<lambda>c. c \<noteq> CHR '':'') canonical, tl (dropWhile (\<lambda>c. c \<noteq> CHR '':'') canonical))"

definition endswith :: "string \<Rightarrow> string \<Rightarrow> bool" where
  "endswith s suffix = (length suffix \<le> length s \<and> drop (length s - length suffix) s = suffix)"

text \<open>\<open>os.path.join\<close> of validated components, relative to the root of the registry: no
  component starts or ends with a slash, so the components are joined by single slashes.\<close>

fun join_path :: "string list \<Rightarrow> string" where
  "join_path [] = []"
| "join_path [a] = a"
| "join_path (a # b # rest) = a @ ''/'' @ join_path (b # rest)"

subsection \<open>Path validation\<close>

definition invalid_item :: "string \<Rightarrow> bool" where
  "invalid_item item = (item = ''.'' \<or> item = ''..'' \<or> item = [])"

definition validate_path_component :: "string \<Rightarrow> error + unit" where
  "validate_path_component path =
     (if path = [] then Inl InvalidPathComponent
      else if list_ex invalid_item (split_on CHR ''/'' path) then Inl InvalidPathComponent
      else Inr ())"

text \<open>\<open>Registry._path\<close>: every argument is validated, in order, before the path is built.\<close>

fun validate_all :: "string list \<Rightarrow> error + unit" where
  "validate_all [] = Inr ()"
| "validate_all (arg # args) =
     (case validate_path_component arg of
        Inl e \<Rightarrow> Inl e
      | Inr _ \<Rightarrow> validate_all args)"

definition Registry_path :: "string list \<Rightarrow> error + string" where
  "Registry_path args =
     (case validate_all args of
        Inl e \<Rightarrow> Inl e
      | Inr _ \<Rightarrow> Inr (join_path args))"

subsection \<open>Reading one record\<close>

text \<open>\<open>with open(path) as f: json.load(f)\<close> inside \<open>try: ... except (IOError, OSError)\<close>:
  an error of the operating system is caught and gives \<open>None\<close>, a decoding error leaves.\<close>

definition load_or_none :: "filesystem \<Rightarrow> string \<Rightarrow> json option io" where
  "load_or_none fs path =
     (case fs_open fs path of
        Inl _ \<Rightarrow> (Inr None, [Open path])
      | Inr Garbage \<Rightarrow> (Inl JSONDecodeError, [Open path])
      | Inr (Doc j) \<Rightarrow> (Inr (Some j), [Open path]))"

text \<open>The same two statements outside any \<open>try\<close>: the error of the operating system leaves.\<close>

definition load_or_raise :: "filesystem \<Rightarrow> string \<Rightarrow> json io" where
  "load_or_raise fs path =
     (case fs_open fs path of
        Inl e \<Rightarrow> (Inl (OSError e), [Open path])
      | Inr Garbage \<Rightarrow> (Inl JSONDecodeError, [Open path])
      | Inr (Doc j) \<Rightarrow> (Inr j, [Open path]))"

text \<open>\<open>Registry.get_package\<close>. The call of \<open>_path\<close> stands inside the \<open>try\<close>, but the
  handler does not catch \<open>InvalidPathComponent\<close>.\<close>

definition get_package :: "filesystem \<Rightarrow> string \<Rightarrow> string \<Rightarrow> PackageInfo option io" where
  "get_package fs canonical version =
     (if CHR '':'' \<notin> set canonical then (Inr None, [])
      else
        (case split_colon canonical of (registry, package) \<Rightarrow>
           (case Registry_path [''packages'', registry, package, version @ ''.json''] of
              Inl e \<Rightarrow> (Inl e, [])
            | Inr path \<Rightarrow>
                (case load_or_none fs path of
                   (Inl e, t) \<Rightarrow> (Inl e, t)
                 | (Inr None, t) \<Rightarrow> (Inr None, t)
                 | (Inr (Some j), t) \<Rightarrow> (Inr (Some (PackageInfo j)), t)))))"

subsection \<open>Dynamically typed values\<close>

text \<open>\<open>value[key]\<close> with a string key: only a dictionary can be indexed by a string.\<close>

definition subscript :: "json \<Rightarrow> string \<Rightarrow> error + json" where
  "subscript value key =
     (case value of
        JObj kvs \<Rightarrow> (case map_of kvs key of None \<Rightarrow> Inl KeyError | Some v \<Rightarrow> Inr v)
      | _ \<Rightarrow> Inl TypeError)"

text \<open>\<open>value.get(key)\<close>: \<open>None\<close> (here \<open>JNull\<close>) for a missing key; only a dictionary has
  the method.\<close>

definition dict_get :: "json \<Rightarrow> string \<Rightarrow> error + json" where
  "dict_get value key =
     (case value of
        JObj kvs \<Rightarrow> (case map_of kvs key of None \<Rightarrow> Inr JNull | Some v \<Rightarrow> Inr v)
      | _ \<Rightarrow> Inl AttributeError)"

fun truthy :: "json \<Rightarrow> bool" where
  "truthy JNull = False"
| "truthy (JBool b) = b"
| "truthy (JNum n) = (n \<noteq> 0)"
| "truthy (JStr s) = (s \<noteq> [])"
| "truthy (JArr xs) = (xs \<noteq> [])"
| "truthy (JObj kvs) = (kvs \<noteq> [])"

text \<open>\<open>get_package\<close> applied to a value read from a document. On a value that is no string
  the test \<open>':' not in canonical\<close> raises \<open>TypeError\<close> (null, booleans, numbers) or is a
  membership test (lists, dictionaries), after which \<open>canonical.split\<close> does not exist.\<close>

definition get_package_dyn :: "filesystem \<Rightarrow> json \<Rightarrow> string \<Rightarrow> PackageInfo option io" where
  "get_package_dyn fs canonical version =
     (case canonical of
        JStr s \<Rightarrow> get_package fs s version
      | JArr xs \<Rightarrow> if JStr '':'' \<in> set xs then (Inl AttributeError, []) else (Inr None, [])
      | JObj kvs \<Rightarrow> if '':'' \<in> set (map fst kvs) then (Inl AttributeError, []) else (Inr None, [])
      | _ \<Rightarrow> (Inl TypeError, []))"

subsection \<open>Versions of a package\<close>

text \<open>\<open>rv.add(v)\<close> on the set \<open>rv\<close>, kept as a list without duplicates: lists and
  dictionaries are not hashable. The order in which Python iterates over a set is not
  specified; the list keeps the order of insertion. The order matters only between
  members with equal sort keys, which a stable sort leaves as they come.\<close>

definition set_add :: "json list \<Rightarrow> json \<Rightarrow> error + json list" where
  "set_add rv v =
     (case v of
        JArr _ \<Rightarrow> Inl TypeError
      | JObj _ \<Rightarrow> Inl TypeError
      | _ \<Rightarrow> Inr (if v \<in> set rv then rv else rv @ [v]))"

text \<open>The body of the loop over \<open>os.listdir(...)\<close> in \<open>get_package_versions\<close>. Nothing in
  the loop is guarded by a \<open>try\<close>.\<close>

fun collect_versions ::
  "filesystem \<Rightarrow> string \<Rightarrow> string \<Rightarrow> string list \<Rightarrow> json list \<Rightarrow> json list io" where
  "collect_versions fs registry package [] rv = (Inr rv, [])"
| "collect_versions fs registry package (filename # rest) rv =
     (if endswith filename ''.json'' then
        (case Registry_path [''packages'', registry, package, filename] of
           Inl e \<Rightarrow> (Inl e, [])
         | Inr path \<Rightarrow>
             (case load_or_raise fs path of
                (Inl e, t) \<Rightarrow> (Inl e, t)
              | (Inr j, t) \<Rightarrow>
                  (case subscript j ''version'' of
                     Inl e \<Rightarrow> (Inl e, t)
                   | Inr v \<Rightarrow>
                       (case set_add rv v of
                          Inl e \<Rightarrow> (Inl e, t)
                        | Inr rv' \<Rightarrow> after t (collect_versions fs registry package rest rv')))))
      else collect_versions fs registry package rest rv)"

text \<open>\<open>sorted(rv, key=VersionInfo.parse)\<close>: the key of every member is computed first, and the
  first member without a key raises. \<open>VersionInfo.parse\<close> belongs to the package
  \<open>semver\<close>, which is not part of the sources; it is the parameter \<open>parse\<close>, with \<open>None\<close>
  for the \<open>ValueError\<close> of a string that is no semantic version. A member that is no string
  makes the regular expression of the parser raise \<open>TypeError\<close>.\<close>

fun version_keys :: "(string \<Rightarrow> 'k option) \<Rightarrow> json list \<Rightarrow> error + ('k \<times> string) list" where
  "version_keys parse [] = Inr []"
| "version_keys parse (v # vs) =
     (case v of
        JStr s \<Rightarrow>
          (case parse s of
             None \<Rightarrow> Inl ValueError
           | Some k \<Rightarrow>
               (case version_keys parse vs of
                  Inl e \<Rightarrow> Inl e
                | Inr ks \<Rightarrow> Inr ((k, s) # ks)))
      | _ \<Rightarrow> Inl TypeError)"

definition sorted_by_version ::
  "(string \<Rightarrow> 'k::linorder option) \<Rightarrow> json list \<Rightarrow> error + string list" where
  "sorted_by_version parse rv =
     (case version_keys parse rv of
        Inl e \<Rightarrow> Inl e
      | Inr ks \<Rightarrow> Inr (map snd (sort_key fst ks)))"

definition get_package_versions ::
  "filesystem \<Rightarrow> (string \<Rightarrow> 'k::linorder option) \<Rightarrow> string \<Rightarrow> string list option io" where
  "get_package_versions fs parse canonical =
     (if CHR '':'' \<notin> set canonical then (Inr None, [])
      else
        (case split_colon canonical of (registry, package) \<Rightarrow>
           (case Registry_path [''packages'', registry, package] of
              Inl e \<Rightarrow> (Inl e, [])
            | Inr dir \<Rightarrow>
                (case fs_listdir fs dir of
                   Inl e \<Rightarrow> (Inl (OSError e), [Listdir dir])
                 | Inr filenames \<Rightarrow>
                     (case collect_versions fs registry package filenames [] of
                        (Inl e, t) \<Rightarrow> (Inl e, Listdir dir # t)
                      | (Inr rv, t) \<Rightarrow>
                          (case sorted_by_version parse rv of
                             Inl e \<Rightarrow> (Inl e, Listdir dir # t)
                           | Inr versions \<Rightarrow> (Inr (Some versions), Listdir dir # t)))))))"

subsection \<open>Walking the packages\<close>

text \<open>\<open>Registry.iter_packages\<close> is a generator. Its model gives the identifiers yielded
  so far and the exception that ended the walk, if one did.\<close>

type_synonym walk = "(string list \<times> error option) \<times> fs_event list"

text \<open>The body of the loop over the entries of one registry.\<close>

definition iter_item :: "filesystem \<Rightarrow> string \<Rightarrow> string \<Rightarrow> walk" where
  "iter_item fs package_registry item =
     (case Registry_path [''packages'', package_registry, item, ''__NAMESPACE__''] of
        Inl e \<Rightarrow> (([], Some e), [])
      | Inr marker \<Rightarrow>
          (if fs_exists fs marker then
             (case Registry_path [''packages'', package_registry, item] of
                Inl e \<Rightarrow> (([], Some e), [Exists marker])
              | Inr dir \<Rightarrow>
                  (case fs_listdir fs dir of
                     Inl e \<Rightarrow> (([], Some (OSError e)), [Exists marker, Listdir dir])
                   | Inr subitems \<Rightarrow>
                       ((map (\<lambda>subitem. package_registry @ '':'' @ item @ ''/'' @ subitem) subitems,
                         None),
                        [Exists marker, Listdir dir])))
           else (([package_registry @ '':'' @ item], None), [Exists marker])))"

fun iter_items :: "filesystem \<Rightarrow> string \<Rightarrow> string list \<Rightarrow> walk" where
  "iter_items fs package_registry [] = (([], None), [])"
| "iter_items fs package_registry (item # items) =
     (case iter_item fs package_registry item of
        ((ids, Some e), t) \<Rightarrow> ((ids, Some e), t)
      | ((ids, None), t) \<Rightarrow>
          (case iter_items fs package_registry items of
             ((ids', r), t') \<Rightarrow> ((ids @ ids', r), t @ t')))"

definition iter_registry :: "filesystem \<Rightarrow> string \<Rightarrow> walk" where
  "iter_registry fs package_registry =
     (case Registry_path [''packages'', package_registry] of
        Inl e \<Rightarrow> (([], Some e), [])
      | Inr dir \<Rightarrow>
          (case fs_listdir fs dir of
             Inl e \<Rightarrow> (([], Some (OSError e)), [Listdir dir])
           | Inr items \<Rightarrow>
               (case iter_items fs package_registry items of
                  (r, t) \<Rightarrow> (r, Listdir dir # t))))"

fun iter_registries :: "filesystem \<Rightarrow> string list \<Rightarrow> walk" where
  "iter_registries fs [] = (([], None), [])"
| "iter_registries fs (package_registry # rest) =
     (case iter_registry fs package_registry of
        ((ids, Some e), t) \<Rightarrow> ((ids, Some e), t)
      | ((ids, None), t) \<Rightarrow>
          (case iter_registries fs rest of
             ((ids', r), t') \<Rightarrow> ((ids @ ids', r), t @ t')))"

definition iter_packages :: "filesystem \<Rightarrow> walk" where
  "iter_packages fs =
     (case Registry_path [''packages''] of
        Inl e \<Rightarrow> (([], Some e), [])
      | Inr dir \<Rightarrow>
          (case fs_listdir fs dir of
             Inl e \<Rightarrow> (([], Some (OSError e)), [Listdir dir])
           | Inr registries \<Rightarrow>
               (case iter_registries fs registries of
                  (r, t) \<Rightarrow> (r, Listdir dir # t))))"

subsection \<open>SDK links and apps\<close>

text \<open>\<open>with open(self._path('sdks', sdk_id, 'latest.json')) as f: canonical =
  json.load(f)['canonical']\<close>, as it stands in \<open>get_sdk\<close> and in the loop of \<open>get_sdks\<close>,
  inside \<open>try: ... except (IOError, OSError)\<close>. \<open>None\<close> is the caught error.\<close>

definition read_link :: "filesystem \<Rightarrow> string \<Rightarrow> json option io" where
  "read_link fs sdk_id =
     (case Registry_path [''sdks'', sdk_id, ''latest.json''] of
        Inl e \<Rightarrow> (Inl e, [])
      | Inr path \<Rightarrow>
          (case load_or_none fs path of
             (Inl e, t) \<Rightarrow> (Inl e, t)
           | (Inr None, t) \<Rightarrow> (Inr None, t)
           | (Inr (Some j), t) \<Rightarrow>
               (case subscript j ''canonical'' of
                  Inl e \<Rightarrow> (Inl e, t)
                | Inr canonical \<Rightarrow> (Inr (Some canonical), t))))"

definition get_sdk :: "filesystem \<Rightarrow> string \<Rightarrow> string \<Rightarrow> PackageInfo option io" where
  "get_sdk fs sdk_id version =
     (case read_link fs sdk_id of
        (Inl e, t) \<Rightarrow> (Inl e, t)
      | (Inr None, t) \<Rightarrow> (Inr None, t)
      | (Inr (Some canonical), t) \<Rightarrow> after t (get_package_dyn fs canonical version))"

text \<open>The dictionary \<open>rv\<close> of \<open>get_sdks\<close> is an association list; \<open>rv[link] = pkg\<close> is
  \<open>AList.update\<close>.\<close>

fun get_sdks_loop ::
  "filesystem \<Rightarrow> string list \<Rightarrow> (string \<times> PackageInfo) list \<Rightarrow> (string \<times> PackageInfo) list io" where
  "get_sdks_loop fs [] rv = (Inr rv, [])"
| "get_sdks_loop fs (link # links) rv =
     (case read_link fs link of
        (Inl e, t) \<Rightarrow> (Inl e, t)
      | (Inr None, t) \<Rightarrow> after t (get_sdks_loop fs links rv)
      | (Inr (Some canonical), t) \<Rightarrow>
          (case get_package_dyn fs canonical ''latest'' of
             (Inl e, t') \<Rightarrow> (Inl e, t @ t')
           | (Inr None, t') \<Rightarrow> after (t @ t') (get_sdks_loop fs links rv)
           | (Inr (Some pkg), t') \<Rightarrow>
               after (t @ t') (get_sdks_loop fs links (AList.update link pkg rv))))"

definition get_sdks :: "filesystem \<Rightarrow> (string \<times> PackageInfo) list io" where
  "get_sdks fs =
     (case Registry_path [''sdks''] of
        Inl e \<Rightarrow> (Inl e, [])
      | Inr dir \<Rightarrow>
          (case fs_listdir fs dir of
             Inl e \<Rightarrow> (Inl (OSError e), [Listdir dir])
           | Inr links \<Rightarrow> after [Listdir dir] (get_sdks_loop fs links [])))"

definition get_app :: "filesystem \<Rightarrow> string \<Rightarrow> string \<Rightarrow> json option io" where
  "get_app fs app_id version =
     (case Registry_path [''apps'', app_id, version @ ''.json''] of
        Inl e \<Rightarrow> (Inl e, [])
      | Inr path \<Rightarrow> load_or_none fs path)"

text \<open>\<open>get_sdk\<close> applied to a value read from a document: \<open>validate_path_component\<close> raises
  \<open>InvalidPathComponent\<close> on a value that is false in a condition, and a true value that is
  no string has no method \<open>split\<close>.\<close>

definition get_sdk_dyn :: "filesystem \<Rightarrow> json \<Rightarrow> string \<Rightarrow> PackageInfo option io" where
  "get_sdk_dyn fs sdk_id version =
     (case sdk_id of
        JStr s \<Rightarrow> get_sdk fs s version
      | _ \<Rightarrow> if truthy sdk_id then (Inl AttributeError, []) else (Inl InvalidPathComponent, []))"

subsection \<open>Marketing slugs\<close>

definition get_marketing_slugs :: "filesystem \<Rightarrow> json io" where
  "get_marketing_slugs fs =
     (case Registry_path [''misc'', ''marketing-slugs.json''] of
        Inl e \<Rightarrow> (Inl e, [])
      | Inr path \<Rightarrow> load_or_raise fs path)"

text \<open>The value under \<open>'target'\<close> of the result: \<open>None\<close>, a package, or the dictionary
  \<open>{'package': package, 'integration': data['integration']}\<close>. The result itself is the
  dictionary with the keys \<open>'definition'\<close> and \<open>'target'\<close>.\<close>

datatype slug_target = TargetPackage PackageInfo | TargetIntegration PackageInfo json

record slug_result =
  result_definition :: json
  result_target :: "slug_target option"

text \<open>The branch \<open>data['type'] == 'integration'\<close>.\<close>

definition resolve_integration :: "filesystem \<Rightarrow> json \<Rightarrow> slug_target option io" where
  "resolve_integration fs data =
     (case dict_get data ''sdk'' of
        Inl e \<Rightarrow> (Inl e, [])
      | Inr sdk \<Rightarrow>
          (case (if truthy sdk then get_sdk_dyn fs sdk ''latest''
                 else
                   (case dict_get data ''package'' of
                      Inl e \<Rightarrow> (Inl e, [])
                    | Inr package \<Rightarrow>
                        if truthy package then get_package_dyn fs package ''latest''
                        else (Inr None, []))) of
             (Inl e, t) \<Rightarrow> (Inl e, t)
           | (Inr None, t) \<Rightarrow> (Inr None, t)
           | (Inr (Some package), t) \<Rightarrow>
               (case subscript data ''integration'' of
                  Inl e \<Rightarrow> (Inl e, t)
                | Inr label \<Rightarrow> (Inr (Some (TargetIntegration package label)), t))))"

text \<open>The chain \<open>if data['type'] == 'sdk': ... elif ... 'package': ... elif ...
  'integration': ...\<close>; \<open>target\<close> stays \<open>None\<close> for any other type.\<close>

definition resolve_target :: "filesystem \<Rightarrow> json \<Rightarrow> slug_target option io" where
  "resolve_target fs data =
     (case subscript data ''type'' of
        Inl e \<Rightarrow> (Inl e, [])
      | Inr ty \<Rightarrow>
          if ty = JStr ''sdk'' then
            (case subscript data ''target'' of
               Inl e \<Rightarrow> (Inl e, [])
             | Inr sdk_id \<Rightarrow>
                 (case get_sdk_dyn fs sdk_id ''latest'' of
                    (Inl e, t) \<Rightarrow> (Inl e, t)
                  | (Inr r, t) \<Rightarrow> (Inr (map_option TargetPackage r), t)))
          else if ty = JStr ''package'' then
            (case subscript data ''target'' of
               Inl e \<Rightarrow> (Inl e, [])
             | Inr canonical \<Rightarrow>
                 (case get_package_dyn fs canonical ''latest'' of
                    (Inl e, t) \<Rightarrow> (Inl e, t)
                  | (Inr r, t) \<Rightarrow> (Inr (map_option TargetPackage r), t)))
          else if ty = JStr ''integration'' then resolve_integration fs data
          else (Inr None, []))"

definition resolve_marketing_slug :: "filesystem \<Rightarrow> string \<Rightarrow> slug_result option io" where
  "resolve_marketing_slug fs slug =
     (case get_marketing_slugs fs of
        (Inl e, t) \<Rightarrow> (Inl e, t)
      | (Inr slugs, t) \<Rightarrow>
          (case dict_get slugs slug of
             Inl e \<Rightarrow> (Inl e, t)
           | Inr data \<Rightarrow>
               if data = JNull then (Inr None, t)
               else
                 (case resolve_target fs data of
                    (Inl e, t') \<Rightarrow> (Inl e, t @ t')
                  | (Inr tgt, t') \<Rightarrow>
                      (Inr (Some \<lparr>result_definition = data, result_target = tgt\<rparr>), t @ t'))))"

subsection \<open>A filesystem given by tables\<close>

text \<open>A concrete filesystem for the examples: the files with their contents and the
  directories with their entries; every other path does not exist.\<close>

definition table_fs ::
  "(string \<times> file_content) list \<Rightarrow> (string \<times> string list) list \<Rightarrow> filesystem" where
  "table_fs files dirs =
     \<lparr>fs_open = (\<lambda>p. case map_of files p of
                       Some c \<Rightarrow> Inr c
                     | None \<Rightarrow> if p \<in> set (map fst dirs) then Inl IsADirectoryError
                               else Inl FileNotFoundError),
      fs_listdir = (\<lambda>p. case map_of dirs p of
                          Some names \<Rightarrow> Inr names
                        | None \<Rightarrow> if p \<in> set (map fst files) then Inl NotADirectoryError
                                  else Inl FileNotFoundError),
      fs_exists = (\<lambda>p. p \<in> set (map fst files) \<or> p \<in> set (map fst dirs))\<rparr>"

subsection \<open>Semantic versions\<close>

text \<open>Modelled from the spec: \<open>VersionInfo.parse\<close> of the package \<open>semver\<close>, which the
  sources import but do not contain. The spec asks for the order of "semantic-version
  precedence"; the model follows Semantic Versioning 2.0.0. A version is
  \<open>major.minor.patch\<close>, then an optional \<open>-\<close> and dot-separated pre-release identifiers,
  then an optional \<open>+\<close> and dot-separated build identifiers. The key of a version is what
  precedence compares: the three numbers, then the pre-release identifiers, where a
  version without them comes after every version with them, a numeric identifier comes
  before an alphanumeric one, numeric identifiers compare as numbers and alphanumeric
  ones as ASCII strings. The build identifiers are no part of the key.\<close>

type_synonym precedence = "nat \<times> nat \<times> nat \<times> nat \<times> (nat \<times> nat \<times> string) list"

definition is_numeric :: "string \<Rightarrow> bool" where
  "is_numeric s = (s \<noteq> [] \<and> list_all (\<lambda>c. c \<in> set ''0123456789'') s)"

definition numeric_identifier :: "string \<Rightarrow> bool" where
  "numeric_identifier s = (is_numeric s \<and> (s = ''0'' \<or> hd s \<noteq> CHR ''0''))"

definition decimal :: "string \<Rightarrow> nat" where
  "decimal s = foldl (\<lambda>n c. 10 * n + (of_char c - 48)) 0 s"

definition is_identifier :: "string \<Rightarrow> bool" where
  "is_identifier s =
     (s \<noteq> [] \<and>
      list_all (\<lambda>c. c \<in> set ''0123456789ABCDEFGHIJKLMNOPQRSTUVWXYZabcdefghijklmnopqrstuvwxyz-'') s)"

definition prerelease_identifier :: "string \<Rightarrow> bool" where
  "prerelease_identifier s = (is_identifier s \<and> (is_numeric s \<longrightarrow> numeric_identifier s))"

definition prerelease_key :: "string \<Rightarrow> nat \<times> nat \<times> string" where
  "prerelease_key s = (if is_numeric s then (0, decimal s, []) else (1, 0, s))"

text \<open>\<open>split_first c s\<close>: the part before the first \<open>c\<close>, and the part after it if there
  is one.\<close>

definition split_first :: "char \<Rightarrow> string \<Rightarrow> string \<times> string option" where
  "split_first c s =
     (takeWhile (\<lambda>x. x \<noteq> c) s,
      if c \<in> set s then Some (tl (dropWhile (\<lambda>x. x \<noteq> c) s)) else None)"

definition parse_core :: "string \<Rightarrow> (nat \<times> nat \<times> nat) option" where
  "parse_core s =
     (case split_on CHR ''.'' s of
        [major, minor, patch] \<Rightarrow>
          if numeric_identifier major \<and> numeric_identifier minor \<and> numeric_identifier patch
          then Some (decimal major, decimal minor, decimal patch)
          else None
      | _ \<Rightarrow> None)"

definition VersionInfo_parse :: "string \<Rightarrow> precedence option" where
  "VersionInfo_parse version =
     (case split_first CHR ''+'' version of (front, build) \<Rightarrow>
        (case split_first CHR ''-'' front of (core, prerelease) \<Rightarrow>
           if \<not> (case build of
                    None \<Rightarrow> True
                  | Some b \<Rightarrow> list_all is_identifier (split_on CHR ''.'' b)) then None
           else if \<not> (case prerelease of
                         None \<Rightarrow> True
                       | Some p \<Rightarrow> list_all prerelease_identifier (split_on CHR ''.'' p)) then None
           else
             (case parse_core core of
                None \<Rightarrow> None
              | Some (major, minor, patch) \<Rightarrow>
                  Some (major, minor, patch,
                        (case prerelease of
                           None \<Rightarrow> (1, [])
                         | Some p \<Rightarrow> (0, map prerelease_key (split_on CHR ''.'' p)))))))"

subsection \<open>Descriptions and example trees used in the properties\<close>

text \<open>The file that the alias \<open>latest\<close> names for a canonical identifier.\<close>

definition latest_path :: "string \<Rightarrow> string" where
  "latest_path canonical =
     (case split_colon canonical of (registry, package) \<Rightarrow>
        ''packages/'' @ registry @ ''/'' @ package @ ''/latest.json'')"

text \<open>A package with a \<open>latest.json\<close> only, and the same package after a newer version has
  been published without \<open>latest.json\<close> being touched.\<close>

definition fs_latest_only :: filesystem where
  "fs_latest_only =
     table_fs
       [(''packages/npm/left-pad/latest.json'',
         Doc (JObj [(''canonical'', JStr ''npm:left-pad''), (''version'', JStr ''1.0.0'')]))]
       [(''packages/npm/left-pad'', [''latest.json''])]"

definition fs_latest_and_newer :: filesystem where
  "fs_latest_and_newer =
     table_fs
       [(''packages/npm/left-pad/latest.json'',
         Doc (JObj [(''canonical'', JStr ''npm:left-pad''), (''version'', JStr ''1.0.0'')])),
        (''packages/npm/left-pad/2.0.0.json'',
         Doc (JObj [(''canonical'', JStr ''npm:left-pad''), (''version'', JStr ''2.0.0'')]))]
       [(''packages/npm/left-pad'', [''latest.json'', ''2.0.0.json''])]"

text \<open>The rule of the spec for a path segment: it is invalid if it is empty, equals \<open>.\<close>,
  equals \<open>..\<close>, or, after splitting on \<open>/\<close>, contains a component that is empty, \<open>.\<close> or
  \<open>..\<close>.\<close>

definition invalid_segment :: "string \<Rightarrow> bool" where
  "invalid_segment s =
     (s = [] \<or> s = ''.'' \<or> s = ''..'' \<or>
      list_ex (\<lambda>item. item = [] \<or> item = ''.'' \<or> item = ''..'') (split_on CHR ''/'' s))"

text \<open>A small registry: the package \<open>npm:react\<close> with its SDK link, the namespace
  \<open>python:sentry-sdk\<close> with the marker file and the child \<open>flask\<close>, an SDK directory
  \<open>orphan\<close> without a link file, and the marketing slugs.\<close>

definition react_record :: json where
  "react_record = JObj [(''canonical'', JStr ''npm:react''), (''version'', JStr ''16.0.0'')]"

definition flask_record :: json where
  "flask_record =
     JObj [(''canonical'', JStr ''python:sentry-sdk/flask''), (''version'', JStr ''1.0.0'')]"

definition example_slugs :: json where
  "example_slugs =
     JObj [(''react'', JObj [(''type'', JStr ''sdk''), (''target'', JStr ''react'')]),
           (''ghost'', JObj [(''type'', JStr ''sdk''), (''target'', JStr ''missing-sdk'')]),
           (''flask'', JObj [(''type'', JStr ''integration''),
                             (''package'', JStr ''python:sentry-sdk/flask''),
                             (''integration'', JStr ''flask'')]),
           (''untyped'', JObj [(''target'', JStr ''react'')]),
           (''dots'', JObj [(''type'', JStr ''sdk''), (''target'', JStr ''..'')])]"

definition fs_example :: filesystem where
  "fs_example =
     table_fs
       [(''packages/npm/react/latest.json'', Doc react_record),
        (''packages/python/sentry-sdk/__NAMESPACE__'', Garbage),
        (''packages/python/sentry-sdk/flask/1.0.0.json'', Doc flask_record),
        (''packages/python/sentry-sdk/flask/latest.json'', Doc flask_record),
        (''sdks/react/latest.json'', Doc (JObj [(''canonical'', JStr ''npm:react'')])),
        (''misc/marketing-slugs.json'', Doc example_slugs)]
       [(''packages'', [''npm'', ''python'']),
        (''packages/npm'', [''react'']),
        (''packages/npm/react'', [''latest.json'']),
        (''packages/python'', [''sentry-sdk'']),
        (''packages/python/sentry-sdk'', [''__NAMESPACE__'', ''flask'']),
        (''packages/python/sentry-sdk/flask'', [''1.0.0.json'', ''latest.json'']),
        (''sdks'', [''react'', ''orphan'']),
        (''sdks/react'', [''latest.json'']),
        (''sdks/orphan'', []),
        (''misc'', [''marketing-slugs.json''])]"

text \<open>The value of the \<open>version\<close> field of a file: the file opens and holds a JSON
  object with an entry \<open>'version'\<close>.\<close>

definition version_field :: "filesystem \<Rightarrow> string \<Rightarrow> json option" where
  "version_field fs path =
     (case fs_open fs path of
        Inr (Doc j) \<Rightarrow> (case subscript j ''version'' of Inr x \<Rightarrow> Some x | Inl _ \<Rightarrow> None)
      | _ \<Rightarrow> None)"

text \<open>The version string that a file carries: the file opens, holds a JSON object, and
  the value under \<open>'version'\<close> is a string.\<close>

definition version_of :: "filesystem \<Rightarrow> string \<Rightarrow> string option" where
  "version_of fs path =
     (case fs_open fs path of
        Inr (Doc j) \<Rightarrow> (case subscript j ''version'' of Inr (JStr v) \<Rightarrow> Some v | _ \<Rightarrow> None)
      | _ \<Rightarrow> None)"

text \<open>The example of the spec: a package directory with \<open>1.0.0.json\<close>, \<open>1.2.0.json\<close> and
  \<open>1.1.0.json\<close>, each with the matching \<open>version\<close> field.\<close>

definition fs_versions :: filesystem where
  "fs_versions =
     table_fs
       [(''packages/npm/left-pad/1.0.0.json'', Doc (JObj [(''version'', JStr ''1.0.0'')])),
        (''packages/npm/left-pad/1.2.0.json'', Doc (JObj [(''version'', JStr ''1.2.0'')])),
        (''packages/npm/left-pad/1.1.0.json'', Doc (JObj [(''version'', JStr ''1.1.0'')]))]
       [(''packages/npm/left-pad'', [''1.0.0.json'', ''1.2.0.json'', ''1.1.0.json''])]"

text \<open>Two builds of one version: the version strings differ in their build metadata
  only.\<close>

definition fs_builds :: filesystem where
  "fs_builds =
     table_fs
       [(''packages/npm/left-pad/a.json'', Doc (JObj [(''version'', JStr ''1.0.0+a'')])),
        (''packages/npm/left-pad/b.json'', Doc (JObj [(''version'', JStr ''1.0.0+b'')]))]
       [(''packages/npm/left-pad'', [''a.json'', ''b.json''])]"

text \<open>A package directory with a file whose \<open>version\<close> field is no semantic version.\<close>

definition fs_nightly :: filesystem where
  "fs_nightly =
     table_fs
       [(''packages/npm/left-pad/1.0.0.json'', Doc (JObj [(''version'', JStr ''1.0.0'')])),
        (''packages/npm/left-pad/nightly.json'', Doc (JObj [(''version'', JStr ''nightly'')]))]
       [(''packages/npm/left-pad'', [''1.0.0.json'', ''nightly.json''])]"

text \<open>The walk as the spec words it. An entry is a namespace when the marker file exists
  inside it; its children are the entries of its directory other than the marker file,
  and it yields one identifier \<open>registry:entry/child\<close> per child; an entry without the
  marker yields \<open>registry:entry\<close>.\<close>

definition listing :: "filesystem \<Rightarrow> string \<Rightarrow> string list" where
  "listing fs dir = (case fs_listdir fs dir of Inr names \<Rightarrow> names | Inl _ \<Rightarrow> [])"

definition entry_dir :: "string \<Rightarrow> string \<Rightarrow> string" where
  "entry_dir registry entry = ''packages/'' @ registry @ ''/'' @ entry"

definition marker_path :: "string \<Rightarrow> string \<Rightarrow> string" where
  "marker_path registry entry = entry_dir registry entry @ ''/__NAMESPACE__''"

definition namespace_children :: "filesystem \<Rightarrow> string \<Rightarrow> string \<Rightarrow> string list" where
  "namespace_children fs registry entry =
     filter (\<lambda>name. name \<noteq> ''__NAMESPACE__'') (listing fs (entry_dir registry entry))"

definition entry_identifiers :: "filesystem \<Rightarrow> string \<Rightarrow> string \<Rightarrow> string list" where
  "entry_identifiers fs registry entry =
     (if fs_exists fs (marker_path registry entry)
      then map (\<lambda>child. registry @ '':'' @ entry @ ''/'' @ child)
               (namespace_children fs registry entry)
      else [registry @ '':'' @ entry])"

definition walk_identifiers :: "filesystem \<Rightarrow> string list" where
  "walk_identifiers fs =
     concat (map (\<lambda>registry. concat (map (entry_identifiers fs registry)
                                          (listing fs (''packages/'' @ registry))))
                 (listing fs ''packages''))"

text \<open>The identifiers that \<open>iter_packages\<close> yields while it handles one entry.\<close>

definition yielded :: "filesystem \<Rightarrow> string \<Rightarrow> string \<Rightarrow> string list" where
  "yielded fs registry entry = fst (fst (iter_item fs registry entry))"

text \<open>A tree that can be walked: the directories of the walk can be listed, and the names
  in the listings are names of directory entries.\<close>

definition walkable_entry :: "filesystem \<Rightarrow> string \<Rightarrow> string \<Rightarrow> bool" where
  "walkable_entry fs registry entry =
     (validate_path_component entry = Inr () \<and>
      (fs_exists fs (marker_path registry entry)
       \<longrightarrow> (\<exists>children. fs_listdir fs (entry_dir registry entry) = Inr children)))"

definition walkable_registry :: "filesystem \<Rightarrow> string \<Rightarrow> bool" where
  "walkable_registry fs registry =
     (validate_path_component registry = Inr () \<and>
      (\<exists>entries. fs_listdir fs (''packages/'' @ registry) = Inr entries
                 \<and> (\<forall>entry \<in> set entries. walkable_entry fs registry entry)))"

definition walkable :: "filesystem \<Rightarrow> bool" where
  "walkable fs =
     (\<exists>registries. fs_listdir fs ''packages'' = Inr registries
                    \<and> (\<forall>registry \<in> set registries. walkable_registry fs registry))"

text \<open>The link file of an SDK, the record that the link leads to, and the links that
  \<open>get_sdks\<close> can read without an exception: the name is a name of a directory entry, and
  the link file either cannot be opened or holds a JSON object whose \<open>canonical\<close> entry is
  a string that \<open>get_package\<close> resolves (to a record or to nothing) without raising.\<close>

definition link_path :: "string \<Rightarrow> string" where
  "link_path link = ''sdks/'' @ link @ ''/latest.json''"

definition sdk_record :: "filesystem \<Rightarrow> string \<Rightarrow> PackageInfo option" where
  "sdk_record fs link =
     (case fs_open fs (link_path link) of
        Inr (Doc j) \<Rightarrow>
          (case subscript j ''canonical'' of
             Inr (JStr canonical) \<Rightarrow>
               (case fst (get_package fs canonical ''latest'') of
                  Inr r \<Rightarrow> r
                | Inl _ \<Rightarrow> None)
           | _ \<Rightarrow> None)
      | _ \<Rightarrow> None)"

definition link_ok :: "filesystem \<Rightarrow> string \<Rightarrow> bool" where
  "link_ok fs link =
     (validate_path_component link = Inr () \<and>
      (case fs_open fs (link_path link) of
         Inl _ \<Rightarrow> True
       | Inr Garbage \<Rightarrow> False
       | Inr (Doc j) \<Rightarrow>
           (case subscript j ''canonical'' of
              Inr (JStr canonical) \<Rightarrow>
                (case fst (get_package fs canonical ''latest'') of
                   Inr _ \<Rightarrow> True
                 | Inl _ \<Rightarrow> False)
            | _ \<Rightarrow> False)))"

text \<open>A registry with two SDK links, one of them a file that is no JSON document.\<close>

definition fs_broken_link :: filesystem where
  "fs_broken_link =
     table_fs
       [(''packages/npm/react/latest.json'', Doc react_record),
        (''sdks/react/latest.json'', Doc (JObj [(''canonical'', JStr ''npm:react'')])),
        (''sdks/ember/latest.json'', Garbage)]
       [(''sdks'', [''react'', ''ember'']),
        (''sdks/react'', [''latest.json'']),
        (''sdks/ember'', [''latest.json''])]"

text \<open>What a marketing-slug definition refers to, after the data model of the spec: a
  definition of type \<open>sdk\<close> names an SDK, one of type \<open>package\<close> names a package, and one of
  type \<open>integration\<close> carries an integration label and names an SDK if it has one, else a
  package if it has one, else nothing. \<open>None\<close> is a definition that is not of this form.\<close>

datatype reference = SdkRef string | PackageRef string | NoRef

definition package_reference :: "json \<Rightarrow> reference option" where
  "package_reference data =
     (case dict_get data ''package'' of
        Inr (JStr canonical) \<Rightarrow> if canonical \<noteq> [] then Some (PackageRef canonical) else Some NoRef
      | Inr JNull \<Rightarrow> Some NoRef
      | _ \<Rightarrow> None)"

definition reference_of :: "json \<Rightarrow> reference option" where
  "reference_of data =
     (case subscript data ''type'' of
        Inl _ \<Rightarrow> None
      | Inr ty \<Rightarrow>
          if ty = JStr ''sdk'' then
            (case subscript data ''target'' of
               Inr (JStr sdk_id) \<Rightarrow> Some (SdkRef sdk_id)
             | _ \<Rightarrow> None)
          else if ty = JStr ''package'' then
            (case subscript data ''target'' of
               Inr (JStr canonical) \<Rightarrow> Some (PackageRef canonical)
             | _ \<Rightarrow> None)
          else if ty = JStr ''integration'' then
            (case subscript data ''integration'' of
               Inl _ \<Rightarrow> None
             | Inr _ \<Rightarrow>
                 (case dict_get data ''sdk'' of
                    Inr (JStr sdk_id) \<Rightarrow>
                      if sdk_id \<noteq> [] then Some (SdkRef sdk_id) else package_reference data
                  | Inr JNull \<Rightarrow> package_reference data
                  | _ \<Rightarrow> None))
          else Some NoRef)"

text \<open>How the code follows the reference: through \<open>get_sdk\<close> or \<open>get_package\<close>, at the
  version \<open>latest\<close>.\<close>

definition resolve_reference :: "filesystem \<Rightarrow> reference \<Rightarrow> PackageInfo option io" where
  "resolve_reference fs ref =
     (case ref of
        SdkRef sdk_id \<Rightarrow> get_sdk fs sdk_id ''latest''
      | PackageRef canonical \<Rightarrow> get_package fs canonical ''latest''
      | NoRef \<Rightarrow> (Inr None, []))"

text \<open>Resolution as the spec words it, read off the tree. The latest record of a package
  is the document in the file \<open>latest.json\<close> of its directory; there is none when the
  identifier has no colon or the file cannot be opened. The latest record of an SDK is the
  latest record of the package that its link file names. What a definition refers to can
  be resolved when this gives a record.\<close>

definition latest_record :: "filesystem \<Rightarrow> string \<Rightarrow> PackageInfo option" where
  "latest_record fs canonical =
     (if CHR '':'' \<notin> set canonical then None
      else
        (case fs_open fs (latest_path canonical) of
           Inr (Doc j) \<Rightarrow> Some (PackageInfo j)
         | _ \<Rightarrow> None))"

definition sdk_latest_record :: "filesystem \<Rightarrow> string \<Rightarrow> PackageInfo option" where
  "sdk_latest_record fs sdk_id =
     (case fs_open fs (link_path sdk_id) of
        Inr (Doc j) \<Rightarrow>
          (case subscript j ''canonical'' of
             Inr (JStr canonical) \<Rightarrow> latest_record fs canonical
           | _ \<Rightarrow> None)
      | _ \<Rightarrow> None)"

definition referenced_record :: "filesystem \<Rightarrow> reference \<Rightarrow> PackageInfo option" where
  "referenced_record fs ref =
     (case ref of
        SdkRef sdk_id \<Rightarrow> sdk_latest_record fs sdk_id
      | PackageRef canonical \<Rightarrow> latest_record fs canonical
      | NoRef \<Rightarrow> None)"

text \<open>The references that can be followed without an exception: the identifiers are made
  of valid path components, and the files on the way, where they open, hold JSON
  documents (a link file one with a string under \<open>canonical\<close>).\<close>

definition package_readable :: "filesystem \<Rightarrow> string \<Rightarrow> bool" where
  "package_readable fs canonical =
     (CHR '':'' \<in> set canonical \<longrightarrow>
        validate_path_component (fst (split_colon canonical)) = Inr ()
        \<and> validate_path_component (snd (split_colon canonical)) = Inr ()
        \<and> fs_open fs (latest_path canonical) \<noteq> Inr Garbage)"

definition sdk_readable :: "filesystem \<Rightarrow> string \<Rightarrow> bool" where
  "sdk_readable fs sdk_id =
     (validate_path_component sdk_id = Inr () \<and>
      (case fs_open fs (link_path sdk_id) of
         Inl _ \<Rightarrow> True
       | Inr Garbage \<Rightarrow> False
       | Inr (Doc j) \<Rightarrow>
           (case subscript j ''canonical'' of
              Inr (JStr canonical) \<Rightarrow> package_readable fs canonical
            | _ \<Rightarrow> False)))"

definition reference_readable :: "filesystem \<Rightarrow> reference \<Rightarrow> bool" where
  "reference_readable fs ref =
     (case ref of
        SdkRef sdk_id \<Rightarrow> sdk_readable fs sdk_id
      | PackageRef canonical \<Rightarrow> package_readable fs canonical
      | NoRef \<Rightarrow> True)"

section \<open>Properties\<close>

subsection \<open>Path validation\<close>

lemma validate_path_component_error:
  "validate_path_component path = Inl e \<Longrightarrow> e = InvalidPathComponent"
  by (auto simp: validate_path_component_def split: if_splits)

lemma validate_all_invalid:
  "\<exists>arg \<in> set args. validate_path_component arg = Inl InvalidPathComponent
   \<Longrightarrow> validate_all args = Inl InvalidPathComponent"
proof (induction args)
  case Nil
  then show ?case by simp
next
  case (Cons a args)
  show ?case
  proof (cases "validate_path_component a")
    case (Inl e)
    with validate_path_component_error [OF Inl] show ?thesis by simp
  next
    case (Inr u)
    with Cons show ?thesis by auto
  qed
qed

lemma Registry_path_invalid:
  "\<exists>arg \<in> set args. validate_path_component arg = Inl InvalidPathComponent
   \<Longrightarrow> Registry_path args = Inl InvalidPathComponent"
  by (simp add: Registry_path_def validate_all_invalid)

lemma validate_empty: "validate_path_component [] = Inl InvalidPathComponent"
  by (simp add: validate_path_component_def)

subsection \<open>Identifiers without a colon\<close>

text \<open>
  C3. A canonical identifier without a colon resolves to nothing: \<open>get_package\<close>, with any
  version, and \<open>get_package_versions\<close> return \<open>None\<close>, raise nothing and make no filesystem
  access (the list of accesses is empty), whatever the filesystem holds.
\<close>

theorem no_colon_not_found:
  assumes "CHR '':'' \<notin> set canonical"
  shows "get_package fs canonical version = (Inr None, [])
       \<and> get_package_versions fs parse canonical = (Inr None, [])"
  using assms by (simp add: get_package_def get_package_versions_def)

theorem no_colon_not_found_witness:
  "CHR '':'' \<notin> set ''left-pad''
   \<and> get_package (table_fs [] []) ''left-pad'' ''1.2.0'' = (Inr None, [])
   \<and> get_package_versions (table_fs [] []) VersionInfo_parse ''left-pad'' = (Inr None, [])"
proof -
  have h: "CHR '':'' \<notin> set ''left-pad''" by simp
  show ?thesis
    using h no_colon_not_found [OF h, of "table_fs [] []" "''1.2.0''" VersionInfo_parse] by simp
qed

subsection \<open>Identifiers with an empty part\<close>

text \<open>
  C9. A canonical identifier that contains a colon but whose registry part (before the
  first colon) or package part (after it) is empty, such as \<open>:pkg\<close> or \<open>pkg:\<close>, makes
  \<open>get_package\<close> and \<open>get_package_versions\<close> raise \<open>InvalidPathComponent\<close>; they do not
  return \<open>None\<close>.
\<close>

theorem empty_part_raises:
  assumes "CHR '':'' \<in> set canonical"
    and "fst (split_colon canonical) = [] \<or> snd (split_colon canonical) = []"
  shows "get_package fs canonical version = (Inl InvalidPathComponent, [])
       \<and> get_package_versions fs parse canonical = (Inl InvalidPathComponent, [])"
proof -
  obtain registry package where sp: "split_colon canonical = (registry, package)"
    by (cases "split_colon canonical")
  with assms(2) have "registry = [] \<or> package = []" by simp
  then have a: "Registry_path [''packages'', registry, package, version @ ''.json'']
                = Inl InvalidPathComponent"
    and b: "Registry_path [''packages'', registry, package] = Inl InvalidPathComponent"
    by (auto intro!: Registry_path_invalid simp: validate_empty)
  show ?thesis
    using assms(1) sp a b by (simp add: get_package_def get_package_versions_def)
qed

theorem empty_part_raises_witness:
  "get_package (table_fs [] []) '':pkg'' ''latest'' = (Inl InvalidPathComponent, [])
   \<and> get_package_versions (table_fs [] []) VersionInfo_parse '':pkg''
       = (Inl InvalidPathComponent, [])
   \<and> get_package (table_fs [] []) ''pkg:'' ''latest'' = (Inl InvalidPathComponent, [])
   \<and> get_package_versions (table_fs [] []) VersionInfo_parse ''pkg:''
       = (Inl InvalidPathComponent, [])"
proof -
  have c1: "CHR '':'' \<in> set '':pkg''" and c2: "CHR '':'' \<in> set ''pkg:''" by simp_all
  have e1: "fst (split_colon '':pkg'') = [] \<or> snd (split_colon '':pkg'') = []"
    by (simp add: split_colon_def)
  have e2: "fst (split_colon ''pkg:'') = [] \<or> snd (split_colon ''pkg:'') = []"
    by (simp add: split_colon_def)
  show ?thesis
    using empty_part_raises [OF c1 e1, of "table_fs [] []" "''latest''" VersionInfo_parse]
      empty_part_raises [OF c2 e2, of "table_fs [] []" "''latest''" VersionInfo_parse]
    by simp
qed

subsection \<open>Paths of valid components\<close>

lemma validate_all_valid:
  "\<forall>arg \<in> set args. validate_path_component arg = Inr () \<Longrightarrow> validate_all args = Inr ()"
  by (induction args) auto

lemma Registry_path_valid:
  "\<forall>arg \<in> set args. validate_path_component arg = Inr ()
   \<Longrightarrow> Registry_path args = Inr (join_path args)"
  by (simp add: Registry_path_def validate_all_valid)

lemma Registry_path_result:
  "Registry_path args = Inr p \<Longrightarrow> p = join_path args"
  by (auto simp: Registry_path_def split: sum.splits)

lemma validate_constants:
  "validate_path_component ''packages'' = Inr ()"
  "validate_path_component ''latest.json'' = Inr ()"
  "validate_path_component ''sdks'' = Inr ()"
  "validate_path_component ''apps'' = Inr ()"
  "validate_path_component ''misc'' = Inr ()"
  "validate_path_component ''marketing-slugs.json'' = Inr ()"
  "validate_path_component ''__NAMESPACE__'' = Inr ()"
  by (simp_all add: validate_path_component_def invalid_item_def)

subsection \<open>Resolving one version\<close>

lemma get_package_cases:
  "get_package fs canonical version =
     (if CHR '':'' \<notin> set canonical then (Inr None, [])
      else case Registry_path [''packages'', fst (split_colon canonical),
                               snd (split_colon canonical), version @ ''.json''] of
             Inl e \<Rightarrow> (Inl e, [])
           | Inr path \<Rightarrow>
               ((case fs_open fs path of
                   Inl _ \<Rightarrow> Inr None
                 | Inr Garbage \<Rightarrow> Inl JSONDecodeError
                 | Inr (Doc j) \<Rightarrow> Inr (Some (PackageInfo j))), [Open path]))"
  by (auto simp: get_package_def load_or_none_def
           split: prod.splits sum.splits file_content.splits option.splits)

lemma latest_path_join:
  "join_path [''packages'', fst (split_colon canonical), snd (split_colon canonical),
              ''latest.json''] = latest_path canonical"
  by (simp add: latest_path_def split: prod.splits)

text \<open>
  C8. Resolving the version \<open>latest\<close> reads the literal file \<open>latest.json\<close> of the package
  directory and nothing else: for a well-formed identifier the result is the content of
  that file (\<open>None\<close> when it cannot be opened) and the only access is the opening of that
  file; and two trees that agree on that one file give the same result, whatever other
  version files they hold. The latest version is not computed from the stored versions.
\<close>

theorem latest_reads_literal_file:
  "(CHR '':'' \<in> set canonical
      \<and> validate_path_component (fst (split_colon canonical)) = Inr ()
      \<and> validate_path_component (snd (split_colon canonical)) = Inr ()
    \<longrightarrow> get_package fs canonical ''latest'' =
          ((case fs_open fs (latest_path canonical) of
              Inl _ \<Rightarrow> Inr None
            | Inr Garbage \<Rightarrow> Inl JSONDecodeError
            | Inr (Doc j) \<Rightarrow> Inr (Some (PackageInfo j))),
           [Open (latest_path canonical)]))
   \<and> (fs_open fs (latest_path canonical) = fs_open fs' (latest_path canonical)
      \<longrightarrow> get_package fs canonical ''latest'' = get_package fs' canonical ''latest'')"
proof (intro conjI impI)
  assume a: "CHR '':'' \<in> set canonical
      \<and> validate_path_component (fst (split_colon canonical)) = Inr ()
      \<and> validate_path_component (snd (split_colon canonical)) = Inr ()"
  then have "Registry_path [''packages'', fst (split_colon canonical),
                            snd (split_colon canonical), ''latest'' @ ''.json'']
     = Inr (latest_path canonical)"
    using Registry_path_valid [of "[''packages'', fst (split_colon canonical),
                                    snd (split_colon canonical), ''latest'' @ ''.json'']"]
    by (simp add: validate_constants latest_path_join del: join_path.simps)
  with a show "get_package fs canonical ''latest'' =
          ((case fs_open fs (latest_path canonical) of
              Inl _ \<Rightarrow> Inr None
            | Inr Garbage \<Rightarrow> Inl JSONDecodeError
            | Inr (Doc j) \<Rightarrow> Inr (Some (PackageInfo j))),
           [Open (latest_path canonical)])"
    by (simp add: get_package_cases)
next
  assume e: "fs_open fs (latest_path canonical) = fs_open fs' (latest_path canonical)"
  show "get_package fs canonical ''latest'' = get_package fs' canonical ''latest''"
  proof (cases "Registry_path [''packages'', fst (split_colon canonical),
                               snd (split_colon canonical), ''latest'' @ ''.json'']")
    case (Inl err)
    then show ?thesis by (simp add: get_package_cases)
  next
    case (Inr p)
    from Registry_path_result [OF Inr] have "p = latest_path canonical"
      by (simp add: latest_path_join del: join_path.simps)
    with Inr e show ?thesis by (simp add: get_package_cases)
  qed
qed

theorem latest_reads_literal_file_witness:
  "get_package fs_latest_only ''npm:left-pad'' ''latest'' =
     (Inr (Some (PackageInfo (JObj [(''canonical'', JStr ''npm:left-pad''),
                                    (''version'', JStr ''1.0.0'')]))),
      [Open ''packages/npm/left-pad/latest.json''])
   \<and> get_package fs_latest_and_newer ''npm:left-pad'' ''latest'' =
       get_package fs_latest_only ''npm:left-pad'' ''latest''"
proof -
  have p: "latest_path ''npm:left-pad'' = ''packages/npm/left-pad/latest.json''"
    by (simp add: latest_path_def split_colon_def)
  have v: "CHR '':'' \<in> set ''npm:left-pad''
      \<and> validate_path_component (fst (split_colon ''npm:left-pad'')) = Inr ()
      \<and> validate_path_component (snd (split_colon ''npm:left-pad'')) = Inr ()"
    by (simp add: split_colon_def validate_path_component_def invalid_item_def)
  have o1: "fs_open fs_latest_only ''packages/npm/left-pad/latest.json''
    = Inr (Doc (JObj [(''canonical'', JStr ''npm:left-pad''), (''version'', JStr ''1.0.0'')]))"
    by (simp add: fs_latest_only_def table_fs_def)
  have o2: "fs_open fs_latest_and_newer ''packages/npm/left-pad/latest.json''
    = Inr (Doc (JObj [(''canonical'', JStr ''npm:left-pad''), (''version'', JStr ''1.0.0'')]))"
    by (simp add: fs_latest_and_newer_def table_fs_def)
  show ?thesis
    using latest_reads_literal_file [of "''npm:left-pad''" fs_latest_only fs_latest_and_newer]
      latest_reads_literal_file [of "''npm:left-pad''" fs_latest_and_newer fs_latest_only]
      v o1 o2
    by (simp add: p)
qed

subsection \<open>Failures of the filesystem\<close>

text \<open>In \<open>get_package\<close> every error of the operating system at the opening of the file is
  caught: the result is \<open>None\<close>.\<close>

lemma get_package_os_error:
  assumes "CHR '':'' \<in> set canonical"
    and "Registry_path [''packages'', fst (split_colon canonical),
                        snd (split_colon canonical), version @ ''.json''] = Inr path"
    and "fs_open fs path = Inl e"
  shows "get_package fs canonical version = (Inr None, [Open path])"
  using assms by (simp add: get_package_cases)

text \<open>In \<open>get_package_versions\<close> the error of \<open>os.listdir\<close> is not caught.\<close>

lemma get_package_versions_listdir_error:
  assumes "CHR '':'' \<in> set canonical"
    and "Registry_path [''packages'', fst (split_colon canonical),
                        snd (split_colon canonical)] = Inr dir"
    and "fs_listdir fs dir = Inl e"
  shows "get_package_versions fs parse canonical = (Inl (OSError e), [Listdir dir])"
  using assms by (simp add: get_package_versions_def case_prod_beta)

text \<open>
  C1. The claim is that \<open>get_package\<close> and \<open>get_package_versions\<close> report every failure of
  the filesystem as "not found", and that \<open>get_package_versions\<close> returns "not found" for
  a package directory that does not exist. On the empty tree, for the identifier
  \<open>npm:missing\<close>, \<open>get_package\<close> does so (it returns \<open>None\<close>), but \<open>get_package_versions\<close>
  raises the \<open>FileNotFoundError\<close> of \<open>os.listdir\<close>.
\<close>

theorem missing_directory_raises:
  "get_package_versions (table_fs [] []) VersionInfo_parse ''npm:missing''
     = (Inl (OSError FileNotFoundError), [Listdir ''packages/npm/missing''])
   \<and> get_package (table_fs [] []) ''npm:missing'' ''latest''
     = (Inr None, [Open ''packages/npm/missing/latest.json''])"
  by code_simp

subsection \<open>Invalid path segments\<close>

text \<open>\<open>validate_path_component\<close> rejects exactly the segments that the rule of the spec
  calls invalid.\<close>

lemma validate_iff_invalid_segment:
  "validate_path_component s = Inl InvalidPathComponent \<longleftrightarrow> invalid_segment s"
proof -
  have a: "s = ''.'' \<Longrightarrow> list_ex invalid_item (split_on CHR ''/'' s)"
    by (simp add: invalid_item_def)
  have b: "s = ''..'' \<Longrightarrow> list_ex invalid_item (split_on CHR ''/'' s)"
    by (simp add: invalid_item_def)
  have c: "list_ex (\<lambda>item. item = [] \<or> item = ''.'' \<or> item = ''..'') xs
           = list_ex invalid_item xs" for xs
    by (auto simp: list_ex_iff invalid_item_def)
  show ?thesis
    using a b by (auto simp: validate_path_component_def invalid_segment_def c)
qed

text \<open>
  C2, as the code has it. An invalid segment (empty, \<open>.\<close>, \<open>..\<close>, or with a component that
  is empty, \<open>.\<close> or \<open>..\<close>) makes \<open>validate_path_component\<close> and \<open>_path\<close> raise
  \<open>InvalidPathComponent\<close>; and \<open>get_package\<close> (registry, package or version file name),
  \<open>get_package_versions\<close> (registry or package), \<open>get_app\<close> (app identifier or version file
  name) and \<open>get_sdk\<close> (SDK identifier) raise it before any filesystem access: the list of
  accesses is empty. The version of \<open>get_sdk\<close> is not among them.
\<close>

theorem invalid_segment_rejected:
  assumes "invalid_segment seg"
  shows "validate_path_component seg = Inl InvalidPathComponent
   \<and> (seg \<in> set args \<longrightarrow> Registry_path args = Inl InvalidPathComponent)
   \<and> (CHR '':'' \<in> set canonical
        \<and> (fst (split_colon canonical) = seg \<or> snd (split_colon canonical) = seg
             \<or> version @ ''.json'' = seg)
      \<longrightarrow> get_package fs canonical version = (Inl InvalidPathComponent, []))
   \<and> (CHR '':'' \<in> set canonical
        \<and> (fst (split_colon canonical) = seg \<or> snd (split_colon canonical) = seg)
      \<longrightarrow> get_package_versions fs parse canonical = (Inl InvalidPathComponent, []))
   \<and> (app_id = seg \<or> version @ ''.json'' = seg
      \<longrightarrow> get_app fs app_id version = (Inl InvalidPathComponent, []))
   \<and> get_sdk fs seg version = (Inl InvalidPathComponent, [])"
proof -
  have v: "validate_path_component seg = Inl InvalidPathComponent"
    using assms by (simp add: validate_iff_invalid_segment)
  have p: "seg \<in> set args \<Longrightarrow> Registry_path args = Inl InvalidPathComponent" for args
    using v by (auto intro: Registry_path_invalid)
  have g: "get_package fs canonical version = (Inl InvalidPathComponent, [])"
    if "CHR '':'' \<in> set canonical"
      and "fst (split_colon canonical) = seg \<or> snd (split_colon canonical) = seg
             \<or> version @ ''.json'' = seg"
  proof -
    have "seg \<in> set [''packages'', fst (split_colon canonical), snd (split_colon canonical),
                      version @ ''.json'']"
      using that(2) by auto
    from p [OF this] that(1) show ?thesis by (simp add: get_package_cases)
  qed
  have gv: "get_package_versions fs parse canonical = (Inl InvalidPathComponent, [])"
    if "CHR '':'' \<in> set canonical"
      and "fst (split_colon canonical) = seg \<or> snd (split_colon canonical) = seg"
  proof -
    have "seg \<in> set [''packages'', fst (split_colon canonical), snd (split_colon canonical)]"
      using that(2) by auto
    from p [OF this] that(1) show ?thesis
      by (simp add: get_package_versions_def case_prod_beta)
  qed
  have ga: "get_app fs app_id version = (Inl InvalidPathComponent, [])"
    if "app_id = seg \<or> version @ ''.json'' = seg"
  proof -
    have "seg \<in> set [''apps'', app_id, version @ ''.json'']"
      using that by auto
    from p [OF this] show ?thesis by (simp add: get_app_def)
  qed
  have gs: "get_sdk fs seg version = (Inl InvalidPathComponent, [])"
  proof -
    have "seg \<in> set [''sdks'', seg, ''latest.json'']" by simp
    from p [OF this] show ?thesis by (simp add: get_sdk_def read_link_def)
  qed
  from v p g gv ga gs show ?thesis by blast
qed

theorem invalid_segment_rejected_witness:
  "invalid_segment ''a/../b.json''
   \<and> Registry_path [''packages'', ''npm'', ''react'', ''a/../b.json''] = Inl InvalidPathComponent
   \<and> get_package fs_example ''npm:react'' ''a/../b'' = (Inl InvalidPathComponent, [])
   \<and> get_app fs_example ''web'' ''a/../b'' = (Inl InvalidPathComponent, [])
   \<and> get_sdk fs_example ''a/../b.json'' ''latest'' = (Inl InvalidPathComponent, [])
   \<and> invalid_segment ''..''
   \<and> get_package_versions fs_example VersionInfo_parse ''npm:..''
       = (Inl InvalidPathComponent, [])"
proof -
  have h: "invalid_segment ''a/../b.json''" by (simp add: invalid_segment_def)
  have h': "invalid_segment ''..''" by (simp add: invalid_segment_def)
  have c: "CHR '':'' \<in> set ''npm:react''" by simp
  have c': "CHR '':'' \<in> set ''npm:..'' \<and> snd (split_colon ''npm:..'') = ''..''"
    by (simp add: split_colon_def)
  show ?thesis
    using h h' c c'
      invalid_segment_rejected [OF h, of "[''packages'', ''npm'', ''react'', ''a/../b.json'']"
        "''npm:react''" "''a/../b''" fs_example VersionInfo_parse "''web''"]
      invalid_segment_rejected [OF h, of "[]" "''npm:react''" "''latest''" fs_example
        VersionInfo_parse "''web''"]
      invalid_segment_rejected [OF h', of "[]" "''npm:..''" "''latest''" fs_example
        VersionInfo_parse "''web''"]
    by simp
qed

text \<open>
  C2, as the claim states it, fails for \<open>get_sdk\<close>: the version is turned into a path
  segment only inside \<open>get_package\<close>, after the link file of the SDK has been opened. With
  the version \<open>a/../b\<close> the segment \<open>a/../b.json\<close> is invalid, and \<open>InvalidPathComponent\<close>
  is raised after the access to \<open>sdks/react/latest.json\<close>.
\<close>

theorem get_sdk_validates_version_late:
  "invalid_segment (''a/../b'' @ ''.json'')
   \<and> get_sdk fs_example ''react'' ''a/../b''
       = (Inl InvalidPathComponent, [Open ''sdks/react/latest.json''])"
  by code_simp

subsection \<open>The versions of a package\<close>

lemma join_path_file:
  "join_path [a, b, c, f] = join_path [a, b, c] @ ''/'' @ f"
  by simp

lemma set_add_result:
  "set_add rv v = Inr rv' \<Longrightarrow> set rv' = insert v (set rv) \<and> (distinct rv \<longrightarrow> distinct rv')"
  by (cases v) (auto simp: set_add_def split: if_splits)

lemma set_add_string: "set_add rv (JStr s) = Inr (if JStr s \<in> set rv then rv else rv @ [JStr s])"
  by (simp add: set_add_def)

lemma version_field_load:
  "version_field fs path = Some y \<Longrightarrow>
   load_or_raise fs path = (Inr j, t) \<Longrightarrow> subscript j ''version'' = Inr x \<Longrightarrow> x = y"
  by (auto simp: version_field_def load_or_raise_def split: sum.splits file_content.splits)

lemma version_of_field:
  "version_of fs path = Some v \<longleftrightarrow> version_field fs path = Some (JStr v)"
  by (auto simp: version_of_def version_field_def
           split: sum.splits file_content.splits json.splits)

lemma version_of_Some:
  "version_of fs path = Some v \<Longrightarrow>
   \<exists>j. load_or_raise fs path = (Inr j, [Open path]) \<and> subscript j ''version'' = Inr (JStr v)"
  by (auto simp: version_of_def load_or_raise_def split: sum.splits file_content.splits json.splits)

lemma collect_versions_contains:
  "collect_versions fs registry package filenames rv = (Inr rv', t) \<Longrightarrow>
   set rv \<subseteq> set rv' \<and>
   (\<forall>f \<in> set filenames. endswith f ''.json'' \<longrightarrow>
      (\<forall>y. version_field fs (join_path [''packages'', registry, package] @ ''/'' @ f) = Some y
           \<longrightarrow> y \<in> set rv'))"
proof (induction filenames arbitrary: rv t)
  case Nil
  then show ?case by simp
next
  case (Cons f fs')
  show ?case
  proof (cases "endswith f ''.json''")
    case False
    with Cons.prems have "collect_versions fs registry package fs' rv = (Inr rv', t)" by simp
    from Cons.IH [OF this] False show ?thesis by auto
  next
    case True
    from Cons.prems True obtain path j t1 x rv1 t2 where
      p: "Registry_path [''packages'', registry, package, f] = Inr path"
      and l: "load_or_raise fs path = (Inr j, t1)"
      and s: "subscript j ''version'' = Inr x"
      and a: "set_add rv x = Inr rv1"
      and r: "collect_versions fs registry package fs' rv1 = (Inr rv', t2)"
      by (auto simp: after_def split: sum.splits prod.splits simp del: join_path.simps)
        (metis prod.collapse)
    from Registry_path_result [OF p]
    have path: "path = join_path [''packages'', registry, package] @ ''/'' @ f"
      by (simp only: join_path_file)
    from set_add_result [OF a] have s1: "set rv1 = insert x (set rv)" by simp
    from Cons.IH [OF r] have ih: "set rv1 \<subseteq> set rv'"
      "\<forall>g \<in> set fs'. endswith g ''.json'' \<longrightarrow>
        (\<forall>y. version_field fs (join_path [''packages'', registry, package] @ ''/'' @ g) = Some y
           \<longrightarrow> y \<in> set rv')" by auto
    have "y \<in> set rv'"
      if "version_field fs (join_path [''packages'', registry, package] @ ''/'' @ f) = Some y"
      for y
    proof -
      from that path have "version_field fs path = Some y" by simp
      from version_field_load [OF this l s] have "x = y" .
      with s1 ih(1) show ?thesis by auto
    qed
    with ih s1 show ?thesis by (auto simp del: join_path.simps)
  qed
qed

lemma version_keys_members:
  "version_keys parse rv = Inr ks \<Longrightarrow> x \<in> set rv \<Longrightarrow> \<exists>v. x = JStr v \<and> parse v \<noteq> None"
  by (induction rv arbitrary: ks) (auto split: json.splits option.splits sum.splits)

lemma version_keys_strings:
  "\<forall>s \<in> set ss. parse s \<noteq> None \<Longrightarrow>
   version_keys parse (map JStr ss) = Inr (map (\<lambda>s. (the (parse s), s)) ss)"
  by (induction ss) auto

lemma version_keys_invalid:
  "\<forall>x \<in> set rv. \<exists>s. x = JStr s \<Longrightarrow> JStr v \<in> set rv \<Longrightarrow> parse v = None \<Longrightarrow>
   version_keys parse rv = Inl ValueError"
  by (induction rv) (auto split: json.splits option.splits sum.splits)


lemma Registry_path_file:
  "Registry_path [a, b, c] = Inr D \<Longrightarrow> validate_path_component f = Inr ()
   \<Longrightarrow> Registry_path [a, b, c, f] = Inr (D @ ''/'' @ f)"
  by (auto simp: Registry_path_def split: sum.splits)

lemma collect_versions_wellformed:
  assumes "Registry_path [''packages'', registry, package] = Inr D"
    and "\<forall>f \<in> set filenames. endswith f ''.json'' \<longrightarrow>
           validate_path_component f = Inr () \<and> (\<exists>v. version_of fs (D @ ''/'' @ f) = Some v)"
    and "\<forall>x \<in> set rv. \<exists>s. x = JStr s"
    and "distinct rv"
  shows "\<exists>rv'. collect_versions fs registry package filenames rv =
           (Inr rv', map (\<lambda>f. Open (D @ ''/'' @ f)) (filter (\<lambda>f. endswith f ''.json'') filenames))
         \<and> (\<forall>x \<in> set rv'. \<exists>s. x = JStr s) \<and> distinct rv'
         \<and> set rv' = set rv \<union>
             {JStr v | v. \<exists>f \<in> set filenames. endswith f ''.json''
                            \<and> version_of fs (D @ ''/'' @ f) = Some v}"
  using assms(2-4)
proof (induction filenames arbitrary: rv)
  case Nil
  then show ?case by simp
next
  case (Cons f fs')
  show ?case
  proof (cases "endswith f ''.json''")
    case False
    from Cons.prems have "\<forall>f \<in> set fs'. endswith f ''.json'' \<longrightarrow>
           validate_path_component f = Inr () \<and> (\<exists>v. version_of fs (D @ ''/'' @ f) = Some v)"
      by simp
    from Cons.IH [OF this Cons.prems(2,3)] False show ?thesis by auto
  next
    case True
    with Cons.prems(1) obtain v where vf: "validate_path_component f = Inr ()"
      and vo: "version_of fs (D @ ''/'' @ f) = Some v" by auto
    from Registry_path_file [OF assms(1) vf]
    have p: "Registry_path [''packages'', registry, package, f] = Inr (D @ ''/'' @ f)" .
    from version_of_Some [OF vo] obtain j where
      l: "load_or_raise fs (D @ ''/'' @ f) = (Inr j, [Open (D @ ''/'' @ f)])"
      and s: "subscript j ''version'' = Inr (JStr v)" by blast
    let ?rv1 = "if JStr v \<in> set rv then rv else rv @ [JStr v]"
    have a: "set_add rv (JStr v) = Inr ?rv1" by (rule set_add_string)
    have r1: "\<forall>x \<in> set ?rv1. \<exists>s. x = JStr s" using Cons.prems(2) by auto
    have r2: "distinct ?rv1" using Cons.prems(3) by auto
    have r0: "\<forall>f \<in> set fs'. endswith f ''.json'' \<longrightarrow>
           validate_path_component f = Inr () \<and> (\<exists>v. version_of fs (D @ ''/'' @ f) = Some v)"
      using Cons.prems(1) by simp
    from Cons.IH [OF r0 r1 r2] obtain rv' where
      c: "collect_versions fs registry package fs' ?rv1 =
           (Inr rv', map (\<lambda>f. Open (D @ ''/'' @ f)) (filter (\<lambda>f. endswith f ''.json'') fs'))"
      and i1: "\<forall>x \<in> set rv'. \<exists>s. x = JStr s" and i2: "distinct rv'"
      and i3: "set rv' = set ?rv1 \<union>
             {JStr v | v. \<exists>f \<in> set fs'. endswith f ''.json''
                            \<and> version_of fs (D @ ''/'' @ f) = Some v}"
      by blast
    have step: "collect_versions fs registry package (f # fs') rv =
           (Inr rv', map (\<lambda>f. Open (D @ ''/'' @ f)) (filter (\<lambda>f. endswith f ''.json'') (f # fs')))"
      using True p l s a c by (simp add: after_def del: join_path.simps)
    have "set rv' = set rv \<union>
             {JStr v | v. \<exists>g \<in> set (f # fs'). endswith g ''.json''
                            \<and> version_of fs (D @ ''/'' @ g) = Some v}"
      using i3 True vo by auto
    with step i1 i2 show ?thesis by blast
  qed
qed


lemma all_strings:
  "\<forall>x \<in> set rv. \<exists>s. x = JStr s \<Longrightarrow> \<exists>ss. rv = map JStr ss"
proof (induction rv)
  case Nil
  then show ?case by simp
next
  case (Cons x rv)
  then obtain s ss where "x = JStr s" "rv = map JStr ss" by auto
  then have "x # rv = map JStr (s # ss)" by simp
  then show ?case by (rule exI)
qed

lemma sorted_by_version_strings:
  assumes "\<forall>s \<in> set ss. parse s \<noteq> None" and "distinct ss"
  shows "\<exists>vs. sorted_by_version parse (map JStr ss) = Inr vs \<and> set vs = set ss
              \<and> distinct vs \<and> sorted (map (the \<circ> parse) vs)"
proof -
  let ?ks = "map (\<lambda>s. (the (parse s), s)) ss"
  let ?vs = "map snd (sort_key fst ?ks)"
  have r: "sorted_by_version parse (map JStr ss) = Inr ?vs"
    using version_keys_strings [OF assms(1)] by (simp add: sorted_by_version_def)
  have s: "set ?vs = set ss" by (simp add: image_image)
  have "distinct ?ks" using assms(2) by (simp add: distinct_map inj_on_def)
  moreover have "inj_on snd (set ?ks)" by (auto simp: inj_on_def)
  ultimately have d: "distinct ?vs" by (simp add: distinct_map)
  have e: "map (the \<circ> parse) ?vs = map fst (sort_key fst ?ks)"
    by auto
  have "sorted (map fst (sort_key fst ?ks))" by (rule sorted_sort_key)
  with e have o: "sorted (map (the \<circ> parse) ?vs)" by (simp only:)
  from r s d o show ?thesis by blast
qed

lemma strictly_sorted_if_injective:
  assumes "sorted (map (the \<circ> parse) vs)" and "distinct vs"
    and "\<forall>v \<in> set vs. parse v \<noteq> None" and "inj_on parse (set vs)"
  shows "sorted_wrt (<) (map (the \<circ> parse) vs)"
proof -
  have "inj_on (the \<circ> parse) (set vs)"
  proof (rule inj_onI)
    fix a b assume a: "a \<in> set vs" and b: "b \<in> set vs"
      and e: "(the \<circ> parse) a = (the \<circ> parse) b"
    from a b assms(3) have "parse a \<noteq> None" "parse b \<noteq> None" by auto
    with e have "parse a = parse b" by (auto intro: option.expand)
    with assms(4) a b show "a = b" by (auto dest: inj_onD)
  qed
  with assms(2) have "distinct (map (the \<circ> parse) vs)" by (simp add: distinct_map)
  with assms(1) show ?thesis by (simp add: strict_sorted_iff)
qed

text \<open>
  C4, as the code has it. Let the package directory be listed, and let every \<open>*.json\<close>
  file in it carry a \<open>version\<close> field that is a semantic-version string. Then
  \<open>get_package_versions\<close> returns the set of those version strings, each string once,
  in ascending order of precedence. The order is strictly ascending when no two of the
  version strings have the same precedence.
\<close>

theorem versions_sorted_and_deduplicated:
  assumes "CHR '':'' \<in> set canonical"
    and "Registry_path [''packages'', fst (split_colon canonical), snd (split_colon canonical)]
         = Inr dir"
    and "fs_listdir fs dir = Inr filenames"
    and "\<forall>f \<in> set filenames. endswith f ''.json'' \<longrightarrow>
           validate_path_component f = Inr ()
           \<and> (\<exists>v. version_of fs (dir @ ''/'' @ f) = Some v \<and> parse v \<noteq> None)"
  shows "\<exists>versions t.
           get_package_versions fs parse canonical = (Inr (Some versions), t)
         \<and> set versions = {v. \<exists>f \<in> set filenames. endswith f ''.json''
                                 \<and> version_of fs (dir @ ''/'' @ f) = Some v}
         \<and> distinct versions
         \<and> sorted (map (the \<circ> parse) versions)
         \<and> (inj_on parse (set versions) \<longrightarrow> sorted_wrt (<) (map (the \<circ> parse) versions))"
proof -
  let ?r = "fst (split_colon canonical)" and ?p = "snd (split_colon canonical)"
  let ?V = "{v. \<exists>f \<in> set filenames. endswith f ''.json''
                  \<and> version_of fs (dir @ ''/'' @ f) = Some v}"
  have wf: "\<forall>f \<in> set filenames. endswith f ''.json'' \<longrightarrow>
           validate_path_component f = Inr () \<and> (\<exists>v. version_of fs (dir @ ''/'' @ f) = Some v)"
    using assms(4) by blast
  from collect_versions_wellformed [OF assms(2) wf, of "[]"] obtain rv t where
    c: "collect_versions fs ?r ?p filenames [] = (Inr rv, t)"
    and a: "\<forall>x \<in> set rv. \<exists>s. x = JStr s" and d: "distinct rv"
    and s: "set rv = {JStr v | v. v \<in> ?V}"
    by auto
  from all_strings [OF a] obtain ss where ss: "rv = map JStr ss" by blast
  with d have dss: "distinct ss" by (simp add: distinct_map)
  have "JStr ` set ss = JStr ` ?V" using s ss by auto
  moreover have "inj JStr" by (simp add: inj_def)
  ultimately have sss: "set ss = ?V" by (simp only: inj_image_eq_iff)
  have valid: "\<forall>v \<in> set ss. parse v \<noteq> None"
    using sss assms(4) by auto
  from sorted_by_version_strings [OF valid dss] obtain vs where
    r: "sorted_by_version parse (map JStr ss) = Inr vs" and v1: "set vs = set ss"
    and v2: "distinct vs" and v3: "sorted (map (the \<circ> parse) vs)" by blast
  have g: "get_package_versions fs parse canonical = (Inr (Some vs), Listdir dir # t)"
    using assms(1-3) c r ss by (simp add: get_package_versions_def case_prod_beta)
  have st: "inj_on parse (set vs) \<longrightarrow> sorted_wrt (<) (map (the \<circ> parse) vs)"
    using strictly_sorted_if_injective [OF v3 v2] valid v1 by simp
  from g v1 sss v2 v3 st show ?thesis by blast
qed


theorem versions_sorted_and_deduplicated_witness:
  "\<exists>versions t.
     get_package_versions fs_versions VersionInfo_parse ''npm:left-pad'' = (Inr (Some versions), t)
     \<and> versions = [''1.0.0'', ''1.1.0'', ''1.2.0'']
     \<and> distinct versions
     \<and> sorted_wrt (<) (map (the \<circ> VersionInfo_parse) versions)"
proof -
  have h1: "CHR '':'' \<in> set ''npm:left-pad''" by simp
  have h2: "Registry_path [''packages'', fst (split_colon ''npm:left-pad''),
                           snd (split_colon ''npm:left-pad'')] = Inr ''packages/npm/left-pad''"
    by code_simp
  have h3: "fs_listdir fs_versions ''packages/npm/left-pad''
            = Inr [''1.0.0.json'', ''1.2.0.json'', ''1.1.0.json'']"
    by code_simp
  have e: "endswith ''1.0.0.json'' ''.json''" "endswith ''1.2.0.json'' ''.json''"
    "endswith ''1.1.0.json'' ''.json''"
    by code_simp+
  have v: "validate_path_component ''1.0.0.json'' = Inr ()"
    "validate_path_component ''1.2.0.json'' = Inr ()"
    "validate_path_component ''1.1.0.json'' = Inr ()"
    by code_simp+
  have o: "version_of fs_versions (''packages/npm/left-pad'' @ ''/'' @ ''1.0.0.json'') = Some ''1.0.0''"
    "version_of fs_versions (''packages/npm/left-pad'' @ ''/'' @ ''1.2.0.json'') = Some ''1.2.0''"
    "version_of fs_versions (''packages/npm/left-pad'' @ ''/'' @ ''1.1.0.json'') = Some ''1.1.0''"
    by code_simp+
  have k: "VersionInfo_parse ''1.0.0'' = Some (1, 0, 0, 1, [])"
    "VersionInfo_parse ''1.2.0'' = Some (1, 2, 0, 1, [])"
    "VersionInfo_parse ''1.1.0'' = Some (1, 1, 0, 1, [])"
    by code_simp+
  have h4: "\<forall>f \<in> set [''1.0.0.json'', ''1.2.0.json'', ''1.1.0.json'']. endswith f ''.json'' \<longrightarrow>
           validate_path_component f = Inr ()
           \<and> (\<exists>v. version_of fs_versions (''packages/npm/left-pad'' @ ''/'' @ f) = Some v
                    \<and> VersionInfo_parse v \<noteq> None)"
    using e v o k by simp
  have ev: "get_package_versions fs_versions VersionInfo_parse ''npm:left-pad''
    = (Inr (Some [''1.0.0'', ''1.1.0'', ''1.2.0'']),
       [Listdir ''packages/npm/left-pad'', Open ''packages/npm/left-pad/1.0.0.json'',
        Open ''packages/npm/left-pad/1.2.0.json'', Open ''packages/npm/left-pad/1.1.0.json''])"
    by code_simp
  have inj: "inj_on VersionInfo_parse (set [''1.0.0'', ''1.1.0'', ''1.2.0''])"
    using k by (simp add: inj_on_def)
  from versions_sorted_and_deduplicated [OF h1 h2 h3 h4] obtain versions t where
    r: "get_package_versions fs_versions VersionInfo_parse ''npm:left-pad'' = (Inr (Some versions), t)"
    and d: "distinct versions"
    and st: "inj_on VersionInfo_parse (set versions)
             \<longrightarrow> sorted_wrt (<) (map (the \<circ> VersionInfo_parse) versions)"
    by blast
  from r ev have "versions = [''1.0.0'', ''1.1.0'', ''1.2.0'']" by simp
  with r d st inj show ?thesis by blast
qed

text \<open>
  C4, as the claim states it, asks for a strictly ascending order. Two version strings
  that differ in their build metadata only are two members of the set, and precedence
  does not tell them apart: the result holds both, and in neither order are the two
  strictly ascending.
\<close>

theorem build_metadata_not_strictly_ascending:
  "fst (get_package_versions fs_builds VersionInfo_parse ''npm:left-pad'')
     = Inr (Some [''1.0.0+a'', ''1.0.0+b''])
   \<and> VersionInfo_parse ''1.0.0+a'' = VersionInfo_parse ''1.0.0+b''
   \<and> \<not> sorted_wrt (<) (map (the \<circ> VersionInfo_parse) [''1.0.0+a'', ''1.0.0+b''])
   \<and> \<not> sorted_wrt (<) (map (the \<circ> VersionInfo_parse) [''1.0.0+b'', ''1.0.0+a''])"
  by code_simp

text \<open>
  C10. If a \<open>*.json\<close> file of the package directory carries a \<open>version\<close> field that is
  not a valid semantic-version string, \<open>get_package_versions\<close> raises and returns no
  list. When every \<open>*.json\<close> file can be read and carries a string as its version, the
  exception is the \<open>ValueError\<close> of the parser, raised by \<open>sorted\<close> after the directory and
  every \<open>*.json\<close> file have been read.
\<close>

theorem invalid_version_raises:
  assumes "CHR '':'' \<in> set canonical"
    and "Registry_path [''packages'', fst (split_colon canonical), snd (split_colon canonical)]
         = Inr dir"
    and "fs_listdir fs dir = Inr filenames"
    and "f \<in> set filenames" and "endswith f ''.json''"
    and "version_field fs (dir @ ''/'' @ f) = Some x"
    and "\<forall>v. x = JStr v \<longrightarrow> parse v = None"
  shows "(\<exists>e t. get_package_versions fs parse canonical = (Inl e, t))
       \<and> ((\<forall>g \<in> set filenames. endswith g ''.json'' \<longrightarrow>
              validate_path_component g = Inr ()
              \<and> (\<exists>w. version_of fs (dir @ ''/'' @ g) = Some w))
          \<longrightarrow> get_package_versions fs parse canonical =
                (Inl ValueError,
                 Listdir dir # map (\<lambda>g. Open (dir @ ''/'' @ g))
                                   (filter (\<lambda>g. endswith g ''.json'') filenames)))"
proof (intro conjI impI)
  let ?r = "fst (split_colon canonical)" and ?p = "snd (split_colon canonical)"
  from Registry_path_result [OF assms(2)]
  have dir: "dir = join_path [''packages'', ?r, ?p]" .
  show "\<exists>e t. get_package_versions fs parse canonical = (Inl e, t)"
  proof (cases "collect_versions fs ?r ?p filenames []")
    case (Pair res t)
    show ?thesis
    proof (cases res)
      case (Inl e)
      with Pair assms(1-3) show ?thesis
        by (simp add: get_package_versions_def case_prod_beta)
    next
      case (Inr rv)
      with Pair have c: "collect_versions fs ?r ?p filenames [] = (Inr rv, t)" by simp
      from collect_versions_contains [OF c] assms(4-6) dir have m: "x \<in> set rv"
        by blast
      have "\<exists>e. sorted_by_version parse rv = Inl e"
      proof (cases "version_keys parse rv")
        case (Inl e)
        then show ?thesis by (simp add: sorted_by_version_def)
      next
        case (Inr ks)
        from version_keys_members [OF Inr m] assms(7) show ?thesis by auto
      qed
      with c assms(1-3) show ?thesis
        by (auto simp: get_package_versions_def case_prod_beta)
    qed
  qed
next
  let ?r = "fst (split_colon canonical)" and ?p = "snd (split_colon canonical)"
  assume wf: "\<forall>g \<in> set filenames. endswith g ''.json'' \<longrightarrow>
              validate_path_component g = Inr ()
              \<and> (\<exists>w. version_of fs (dir @ ''/'' @ g) = Some w)"
  from collect_versions_wellformed [OF assms(2) wf, of "[]"] obtain rv where
    c: "collect_versions fs ?r ?p filenames [] =
          (Inr rv, map (\<lambda>g. Open (dir @ ''/'' @ g)) (filter (\<lambda>g. endswith g ''.json'') filenames))"
    and a: "\<forall>x \<in> set rv. \<exists>s. x = JStr s"
    and s: "set rv = set [] \<union> {JStr v | v. \<exists>f \<in> set filenames. endswith f ''.json''
                            \<and> version_of fs (dir @ ''/'' @ f) = Some v}"
    by auto
  from wf assms(4,5) obtain v where "version_of fs (dir @ ''/'' @ f) = Some v" by blast
  with assms(6) have xv: "x = JStr v" and vo: "version_of fs (dir @ ''/'' @ f) = Some v"
    by (simp_all add: version_of_field)
  from xv assms(7) have pn: "parse v = None" by simp
  from s assms(4,5) vo have m: "JStr v \<in> set rv" by auto
  from version_keys_invalid [where parse = parse and rv = rv and v = v, OF a m pn]
  have "sorted_by_version parse rv = Inl ValueError" by (simp add: sorted_by_version_def)
  with c assms(1-3)
  show "get_package_versions fs parse canonical =
                (Inl ValueError,
                 Listdir dir # map (\<lambda>g. Open (dir @ ''/'' @ g))
                                   (filter (\<lambda>g. endswith g ''.json'') filenames))"
    by (simp add: get_package_versions_def case_prod_beta)
qed

theorem invalid_version_raises_witness:
  "VersionInfo_parse ''nightly'' = None
   \<and> get_package_versions fs_nightly VersionInfo_parse ''npm:left-pad'' =
       (Inl ValueError,
        [Listdir ''packages/npm/left-pad'', Open ''packages/npm/left-pad/1.0.0.json'',
         Open ''packages/npm/left-pad/nightly.json''])"
proof -
  have h1: "CHR '':'' \<in> set ''npm:left-pad''" by simp
  have h2: "Registry_path [''packages'', fst (split_colon ''npm:left-pad''),
                           snd (split_colon ''npm:left-pad'')] = Inr ''packages/npm/left-pad''"
    by code_simp
  have h3: "fs_listdir fs_nightly ''packages/npm/left-pad''
            = Inr [''1.0.0.json'', ''nightly.json'']"
    by code_simp
  have h4: "''nightly.json'' \<in> set [''1.0.0.json'', ''nightly.json'']" by simp
  have e: "endswith ''1.0.0.json'' ''.json''" "endswith ''nightly.json'' ''.json''"
    by code_simp+
  have v: "validate_path_component ''1.0.0.json'' = Inr ()"
    "validate_path_component ''nightly.json'' = Inr ()"
    by code_simp+
  have o: "version_of fs_nightly (''packages/npm/left-pad'' @ ''/'' @ ''1.0.0.json'') = Some ''1.0.0''"
    "version_of fs_nightly (''packages/npm/left-pad'' @ ''/'' @ ''nightly.json'') = Some ''nightly''"
    by code_simp+
  have n: "VersionInfo_parse ''nightly'' = None" by code_simp
  have fld: "version_field fs_nightly (''packages/npm/left-pad'' @ ''/'' @ ''nightly.json'')
             = Some (JStr ''nightly'')"
    by code_simp
  have inv: "\<forall>v. JStr ''nightly'' = JStr v \<longrightarrow> VersionInfo_parse v = None"
    using n by simp
  have wf: "\<forall>g \<in> set [''1.0.0.json'', ''nightly.json'']. endswith g ''.json'' \<longrightarrow>
              validate_path_component g = Inr ()
              \<and> (\<exists>w. version_of fs_nightly (''packages/npm/left-pad'' @ ''/'' @ g) = Some w)"
    using v o by simp
  have ev: "map (\<lambda>g. Open (''packages/npm/left-pad'' @ ''/'' @ g))
               (filter (\<lambda>g. endswith g ''.json'') [''1.0.0.json'', ''nightly.json''])
            = [Open ''packages/npm/left-pad/1.0.0.json'', Open ''packages/npm/left-pad/nightly.json'']"
    using e by simp
  from invalid_version_raises
         [where canonical = "''npm:left-pad''" and fs = fs_nightly and parse = VersionInfo_parse
            and dir = "''packages/npm/left-pad''" and filenames = "[''1.0.0.json'', ''nightly.json'']"
            and f = "''nightly.json''" and x = "JStr ''nightly''",
          OF h1 h2 h3 h4 e(2) fld inv]
       wf ev n
  show ?thesis by simp
qed

subsection \<open>The walk over the packages\<close>

lemma marker_Registry_path:
  assumes "validate_path_component registry = Inr ()" and "validate_path_component entry = Inr ()"
  shows "Registry_path [''packages'', registry, entry, ''__NAMESPACE__'']
           = Inr (marker_path registry entry)"
    and "Registry_path [''packages'', registry, entry] = Inr (entry_dir registry entry)"
    and "Registry_path [''packages'', registry] = Inr (''packages/'' @ registry)"
  using assms
    Registry_path_valid [of "[''packages'', registry, entry, ''__NAMESPACE__'']"]
    Registry_path_valid [of "[''packages'', registry, entry]"]
    Registry_path_valid [of "[''packages'', registry]"]
  by (simp_all add: validate_constants marker_path_def entry_dir_def)

lemma iter_item_namespace:
  assumes "validate_path_component registry = Inr ()" and "validate_path_component entry = Inr ()"
    and "fs_exists fs (marker_path registry entry)"
    and "fs_listdir fs (entry_dir registry entry) = Inr names"
  shows "iter_item fs registry entry =
           ((map (\<lambda>name. registry @ '':'' @ entry @ ''/'' @ name) names, None),
            [Exists (marker_path registry entry), Listdir (entry_dir registry entry)])"
  using assms(3,4) marker_Registry_path [OF assms(1,2)]
  by (simp add: iter_item_def del: join_path.simps)

lemma iter_item_leaf:
  assumes "validate_path_component registry = Inr ()" and "validate_path_component entry = Inr ()"
    and "\<not> fs_exists fs (marker_path registry entry)"
  shows "iter_item fs registry entry =
           (([registry @ '':'' @ entry], None), [Exists (marker_path registry entry)])"
  using assms(3) marker_Registry_path [OF assms(1,2)]
  by (simp add: iter_item_def)

text \<open>Without the identifier of the marker file, the identifiers of the listed names are
  the identifiers of the children.\<close>

lemma children_identifiers:
  "filter (\<lambda>i. i \<noteq> registry @ '':'' @ entry @ ''/__NAMESPACE__'')
          (map (\<lambda>name. registry @ '':'' @ entry @ ''/'' @ name) names)
   = map (\<lambda>child. registry @ '':'' @ entry @ ''/'' @ child)
         (filter (\<lambda>name. name \<noteq> ''__NAMESPACE__'') names)"
  by (induction names) auto

lemma marker_identifier_listed:
  "registry @ '':'' @ entry @ ''/__NAMESPACE__''
     \<in> set (map (\<lambda>name. registry @ '':'' @ entry @ ''/'' @ name) names)
   \<longleftrightarrow> ''__NAMESPACE__'' \<in> set names"
  by (induction names) auto

lemma iter_item_walkable:
  assumes "validate_path_component registry = Inr ()" and "walkable_entry fs registry entry"
  shows "fst (iter_item fs registry entry) = (yielded fs registry entry, None)"
proof (cases "fs_exists fs (marker_path registry entry)")
  case True
  with assms(2) obtain names where
    v: "validate_path_component entry = Inr ()"
    and l: "fs_listdir fs (entry_dir registry entry) = Inr names"
    by (auto simp: walkable_entry_def)
  from iter_item_namespace [OF assms(1) v True l] show ?thesis
    by (simp add: yielded_def)
next
  case False
  from assms(2) have v: "validate_path_component entry = Inr ()"
    by (simp add: walkable_entry_def)
  from iter_item_leaf [OF assms(1) v False] show ?thesis
    by (simp add: yielded_def)
qed

lemma iter_items_walkable:
  assumes "validate_path_component registry = Inr ()"
  shows "\<forall>entry \<in> set entries. walkable_entry fs registry entry \<Longrightarrow>
         fst (iter_items fs registry entries)
           = (concat (map (yielded fs registry) entries), None)"
proof (induction entries)
  case Nil
  then show ?case by simp
next
  case (Cons entry entries)
  then have w: "walkable_entry fs registry entry"
    and ih: "fst (iter_items fs registry entries)
           = (concat (map (yielded fs registry) entries), None)" by auto
  from iter_item_walkable [OF assms w] ih show ?case
    by (auto split: prod.splits option.splits)
qed

lemma iter_registry_walkable:
  assumes "walkable_registry fs registry"
  shows "fst (iter_registry fs registry)
           = (concat (map (yielded fs registry) (listing fs (''packages/'' @ registry))),
              None)"
proof -
  from assms obtain entries where v: "validate_path_component registry = Inr ()"
    and l: "fs_listdir fs (''packages/'' @ registry) = Inr entries"
    and w: "\<forall>entry \<in> set entries. walkable_entry fs registry entry"
    by (auto simp: walkable_registry_def)
  have p: "Registry_path [''packages'', registry] = Inr (''packages/'' @ registry)"
    using Registry_path_valid [of "[''packages'', registry]"] v
    by (simp add: validate_constants)
  from iter_items_walkable [OF v w] obtain t where
    "iter_items fs registry entries
       = ((concat (map (yielded fs registry) entries), None), t)"
    by (cases "iter_items fs registry entries") auto
  with p l show ?thesis
    by (simp add: iter_registry_def listing_def)
qed

lemma iter_registries_walkable:
  "\<forall>registry \<in> set registries. walkable_registry fs registry \<Longrightarrow>
   fst (iter_registries fs registries)
     = (concat (map (\<lambda>registry. concat (map (yielded fs registry)
                                            (listing fs (''packages/'' @ registry))))
                    registries), None)"
proof (induction registries)
  case Nil
  then show ?case by simp
next
  case (Cons registry registries)
  then have w: "walkable_registry fs registry"
    and ih: "fst (iter_registries fs registries)
     = (concat (map (\<lambda>registry. concat (map (yielded fs registry)
                                            (listing fs (''packages/'' @ registry))))
                    registries), None)" by auto
  from iter_registry_walkable [OF w] ih show ?case
    by (auto split: prod.splits option.splits)
qed

lemma iter_packages_walkable:
  assumes "walkable fs"
  shows "fst (iter_packages fs)
           = (concat (map (\<lambda>registry. concat (map (yielded fs registry)
                                                  (listing fs (''packages/'' @ registry))))
                          (listing fs ''packages'')), None)"
proof -
  from assms obtain registries where l: "fs_listdir fs ''packages'' = Inr registries"
    and w: "\<forall>registry \<in> set registries. walkable_registry fs registry"
    by (auto simp: walkable_def)
  have p: "Registry_path [''packages''] = Inr ''packages''"
    using Registry_path_valid [of "[''packages'']"] by (simp add: validate_constants)
  from iter_registries_walkable [OF w] obtain t where
    "iter_registries fs registries
       = ((concat (map (\<lambda>registry. concat (map (yielded fs registry)
                                              (listing fs (''packages/'' @ registry))))
                      registries), None), t)"
    by (cases "iter_registries fs registries") auto
  with p l show ?thesis
    by (simp add: iter_packages_def listing_def [of fs "''packages''"])
qed

text \<open>
  C5, as the code has it. For a registry entry whose directory holds the namespace
  marker, the walk yields one identifier \<open>registry:entry/name\<close> for each name that
  \<open>os.listdir\<close> gives for that directory: these are the identifiers
  \<open>registry:entry/child\<close> of the spec, exactly one per child and in the order of the
  listing, and besides them the identifier \<open>registry:entry/__NAMESPACE__\<close> of the marker
  file, when the listing holds it. The walk does not yield \<open>registry:entry\<close> for such an
  entry. For an entry without the marker it yields \<open>registry:entry\<close> alone. The walk does
  not descend further: it asks for the marker and lists the directory of the entry,
  nothing below. Over a tree that can be walked, \<open>iter_packages\<close> ends without an exception
  and yields, registry by registry and entry by entry, what it yields for each entry.
\<close>

theorem namespace_walk:
  "(validate_path_component registry = Inr () \<and> validate_path_component entry = Inr ()
    \<longrightarrow> (fs_exists fs (marker_path registry entry)
           \<and> fs_listdir fs (entry_dir registry entry) = Inr names
         \<longrightarrow> (\<exists>ids. iter_item fs registry entry =
                       ((ids, None),
                        [Exists (marker_path registry entry),
                         Listdir (entry_dir registry entry)])
                 \<and> filter (\<lambda>i. i \<noteq> registry @ '':'' @ entry @ ''/__NAMESPACE__'') ids
                     = entry_identifiers fs registry entry
                 \<and> (registry @ '':'' @ entry @ ''/__NAMESPACE__'' \<in> set ids
                      \<longleftrightarrow> ''__NAMESPACE__'' \<in> set names)
                 \<and> registry @ '':'' @ entry \<notin> set ids))
       \<and> (\<not> fs_exists fs (marker_path registry entry)
         \<longrightarrow> iter_item fs registry entry =
               (([registry @ '':'' @ entry], None), [Exists (marker_path registry entry)])
             \<and> entry_identifiers fs registry entry = [registry @ '':'' @ entry]))
   \<and> (walkable fs
      \<longrightarrow> fst (iter_packages fs) =
            (concat (map (\<lambda>registry. concat (map (yielded fs registry)
                                                 (listing fs (''packages/'' @ registry))))
                         (listing fs ''packages'')), None))"
proof (intro conjI impI)
  assume v: "validate_path_component registry = Inr () \<and> validate_path_component entry = Inr ()"
    and m: "fs_exists fs (marker_path registry entry)
           \<and> fs_listdir fs (entry_dir registry entry) = Inr names"
  let ?ids = "map (\<lambda>name. registry @ '':'' @ entry @ ''/'' @ name) names"
  from v m have i: "iter_item fs registry entry =
      ((?ids, None), [Exists (marker_path registry entry), Listdir (entry_dir registry entry)])"
    by (simp add: iter_item_namespace)
  from m have "entry_identifiers fs registry entry
                 = map (\<lambda>child. registry @ '':'' @ entry @ ''/'' @ child)
                       (filter (\<lambda>name. name \<noteq> ''__NAMESPACE__'') names)"
    by (simp add: entry_identifiers_def namespace_children_def listing_def)
  with children_identifiers [of registry entry names]
  have c: "filter (\<lambda>i. i \<noteq> registry @ '':'' @ entry @ ''/__NAMESPACE__'') ?ids
                  = entry_identifiers fs registry entry"
    by simp
  have k: "registry @ '':'' @ entry @ ''/__NAMESPACE__'' \<in> set ?ids
           \<longleftrightarrow> ''__NAMESPACE__'' \<in> set names"
    by (rule marker_identifier_listed)
  have n: "registry @ '':'' @ entry \<notin> set ?ids" by auto
  from i c k n
  show "\<exists>ids. iter_item fs registry entry =
                       ((ids, None),
                        [Exists (marker_path registry entry),
                         Listdir (entry_dir registry entry)])
                 \<and> filter (\<lambda>i. i \<noteq> registry @ '':'' @ entry @ ''/__NAMESPACE__'') ids
                     = entry_identifiers fs registry entry
                 \<and> (registry @ '':'' @ entry @ ''/__NAMESPACE__'' \<in> set ids
                      \<longleftrightarrow> ''__NAMESPACE__'' \<in> set names)
                 \<and> registry @ '':'' @ entry \<notin> set ids"
    by blast
next
  assume v: "validate_path_component registry = Inr () \<and> validate_path_component entry = Inr ()"
    and m: "\<not> fs_exists fs (marker_path registry entry)"
  from v m show "iter_item fs registry entry =
               (([registry @ '':'' @ entry], None), [Exists (marker_path registry entry)])"
    by (simp add: iter_item_leaf)
  from m show "entry_identifiers fs registry entry = [registry @ '':'' @ entry]"
    by (simp add: entry_identifiers_def)
next
  assume "walkable fs"
  then show "fst (iter_packages fs) =
            (concat (map (\<lambda>registry. concat (map (yielded fs registry)
                                                 (listing fs (''packages/'' @ registry))))
                         (listing fs ''packages'')), None)"
    by (rule iter_packages_walkable)
qed

theorem namespace_walk_witness:
  "(\<exists>ids. fst (iter_item fs_example ''python'' ''sentry-sdk'') = (ids, None)
      \<and> filter (\<lambda>i. i \<noteq> ''python:sentry-sdk/__NAMESPACE__'') ids = [''python:sentry-sdk/flask'']
      \<and> ''python:sentry-sdk/__NAMESPACE__'' \<in> set ids
      \<and> ''python:sentry-sdk'' \<notin> set ids)
   \<and> iter_item fs_example ''npm'' ''react'' =
       (([''npm:react''], None), [Exists ''packages/npm/react/__NAMESPACE__''])
   \<and> fst (iter_packages fs_example) =
       ([''npm:react'', ''python:sentry-sdk/__NAMESPACE__'', ''python:sentry-sdk/flask''], None)"
proof -
  have v: "validate_path_component ''python'' = Inr ()"
    "validate_path_component ''sentry-sdk'' = Inr ()"
    "validate_path_component ''npm'' = Inr ()"
    "validate_path_component ''react'' = Inr ()"
    by code_simp+
  have m: "marker_path ''python'' ''sentry-sdk'' = ''packages/python/sentry-sdk/__NAMESPACE__''"
    "marker_path ''npm'' ''react'' = ''packages/npm/react/__NAMESPACE__''"
    "entry_dir ''python'' ''sentry-sdk'' = ''packages/python/sentry-sdk''"
    "entry_dir ''npm'' ''react'' = ''packages/npm/react''"
    by (simp_all add: marker_path_def entry_dir_def)
  have x: "fs_exists fs_example ''packages/python/sentry-sdk/__NAMESPACE__''"
    "\<not> fs_exists fs_example ''packages/npm/react/__NAMESPACE__''"
    by code_simp+
  have l: "fs_listdir fs_example ''packages'' = Inr [''npm'', ''python'']"
    "fs_listdir fs_example ''packages/npm'' = Inr [''react'']"
    "fs_listdir fs_example ''packages/python'' = Inr [''sentry-sdk'']"
    "fs_listdir fs_example ''packages/python/sentry-sdk'' = Inr [''__NAMESPACE__'', ''flask'']"
    by code_simp+
  have w: "walkable fs_example"
    using v m x l by (simp add: walkable_def walkable_registry_def walkable_entry_def)
  have e: "entry_identifiers fs_example ''python'' ''sentry-sdk'' = [''python:sentry-sdk/flask'']"
    by code_simp
  have y: "yielded fs_example ''npm'' ''react'' = [''npm:react'']"
    "yielded fs_example ''python'' ''sentry-sdk''
       = [''python:sentry-sdk/__NAMESPACE__'', ''python:sentry-sdk/flask'']"
    by code_simp+
  have a: "\<exists>ids. fst (iter_item fs_example ''python'' ''sentry-sdk'') = (ids, None)
      \<and> filter (\<lambda>i. i \<noteq> ''python:sentry-sdk/__NAMESPACE__'') ids = [''python:sentry-sdk/flask'']
      \<and> ''python:sentry-sdk/__NAMESPACE__'' \<in> set ids
      \<and> ''python:sentry-sdk'' \<notin> set ids"
    using namespace_walk [of "''python''" "''sentry-sdk''" fs_example "[''__NAMESPACE__'', ''flask'']"]
      v m x l e by auto
  have b: "iter_item fs_example ''npm'' ''react'' =
       (([''npm:react''], None), [Exists ''packages/npm/react/__NAMESPACE__''])"
    using namespace_walk [of "''npm''" "''react''" fs_example "[]"] v m x by simp
  have c: "fst (iter_packages fs_example) =
       ([''npm:react'', ''python:sentry-sdk/__NAMESPACE__'', ''python:sentry-sdk/flask''], None)"
    using namespace_walk [of "''npm''" "''react''" fs_example "[]"] w l y
    by (simp add: listing_def)
  from a b c show ?thesis by blast
qed

text \<open>
  C5, as the claim states it, asks for exactly one identifier per child of the namespace
  directory. The namespace \<open>python:sentry-sdk\<close> of the example tree has the one child
  \<open>flask\<close>, and the walk as the spec words it yields \<open>python:sentry-sdk/flask\<close> for it. The
  code lists the directory without setting the marker file aside, and yields
  \<open>python:sentry-sdk/__NAMESPACE__\<close> as well.
\<close>

theorem namespace_marker_is_yielded:
  "namespace_children fs_example ''python'' ''sentry-sdk'' = [''flask'']
   \<and> walk_identifiers fs_example = [''npm:react'', ''python:sentry-sdk/flask'']
   \<and> fst (iter_item fs_example ''python'' ''sentry-sdk'')
       = ([''python:sentry-sdk/__NAMESPACE__'', ''python:sentry-sdk/flask''], None)
   \<and> fst (iter_packages fs_example)
       = ([''npm:react'', ''python:sentry-sdk/__NAMESPACE__'', ''python:sentry-sdk/flask''],
          None)"
  by code_simp

subsection \<open>The listing of the SDKs\<close>

lemma link_Registry_path:
  "validate_path_component link = Inr () \<Longrightarrow>
   Registry_path [''sdks'', link, ''latest.json''] = Inr (link_path link)"
  using Registry_path_valid [of "[''sdks'', link, ''latest.json'']"]
  by (simp add: validate_constants link_path_def)

lemma read_link_cases:
  "validate_path_component link = Inr () \<Longrightarrow>
   read_link fs link =
     ((case fs_open fs (link_path link) of
         Inl _ \<Rightarrow> Inr None
       | Inr Garbage \<Rightarrow> Inl JSONDecodeError
       | Inr (Doc j) \<Rightarrow>
           (case subscript j ''canonical'' of
              Inl e \<Rightarrow> Inl e
            | Inr canonical \<Rightarrow> Inr (Some canonical))),
      [Open (link_path link)])"
  by (simp add: read_link_def link_Registry_path load_or_none_def
           split: sum.splits file_content.splits)

lemma get_sdks_step:
  assumes "link_ok fs link"
  shows "\<exists>t. get_sdks_loop fs (link # links) rv =
           after t (get_sdks_loop fs links
                      (case sdk_record fs link of
                         None \<Rightarrow> rv
                       | Some pkg \<Rightarrow> AList.update link pkg rv))"
proof -
  from assms have v: "validate_path_component link = Inr ()" by (simp add: link_ok_def)
  show ?thesis
  proof (cases "fs_open fs (link_path link)")
    case (Inl e)
    then show ?thesis
      by (auto simp: read_link_cases [OF v] sdk_record_def)
  next
    case (Inr content)
    with assms obtain j canonical r where
      c: "content = Doc j" and s: "subscript j ''canonical'' = Inr (JStr canonical)"
      and g: "fst (get_package fs canonical ''latest'') = Inr r"
      by (auto simp: link_ok_def split: file_content.splits sum.splits json.splits)
        (metis sum.nchotomy)
    from g obtain t where g': "get_package fs canonical ''latest'' = (Inr r, t)"
      by (cases "get_package fs canonical ''latest''") auto
    show ?thesis
      using Inr c s g' 
      by (cases r) (auto simp: read_link_cases [OF v] sdk_record_def get_package_dyn_def)
  qed
qed

lemma get_sdks_loop_ok:
  "\<forall>link \<in> set links. link_ok fs link \<Longrightarrow>
   \<exists>rv' t. get_sdks_loop fs links rv = (Inr rv', t)
          \<and> (\<forall>l. map_of rv' l =
                 (if l \<in> set links \<and> sdk_record fs l \<noteq> None then sdk_record fs l
                  else map_of rv l))"
proof (induction links arbitrary: rv)
  case Nil
  then show ?case by simp
next
  case (Cons link links)
  then have ok: "link_ok fs link" and rest: "\<forall>link \<in> set links. link_ok fs link" by auto
  let ?rv1 = "case sdk_record fs link of None \<Rightarrow> rv | Some pkg \<Rightarrow> AList.update link pkg rv"
  from get_sdks_step [OF ok] obtain t where
    st: "get_sdks_loop fs (link # links) rv = after t (get_sdks_loop fs links ?rv1)" by blast
  from Cons.IH [OF rest, of ?rv1] obtain rv' t' where
    r: "get_sdks_loop fs links ?rv1 = (Inr rv', t')"
    and m: "\<forall>l. map_of rv' l =
                 (if l \<in> set links \<and> sdk_record fs l \<noteq> None then sdk_record fs l
                  else map_of ?rv1 l)" by blast
  have m1: "map_of ?rv1 l = (if l = link \<and> sdk_record fs l \<noteq> None then sdk_record fs l
                             else map_of rv l)" for l
    by (cases "sdk_record fs link") (auto simp: update_conv')
  from st r have "get_sdks_loop fs (link # links) rv = (Inr rv', t @ t')"
    by (simp add: after_def)
  moreover have "\<forall>l. map_of rv' l =
                 (if l \<in> set (link # links) \<and> sdk_record fs l \<noteq> None then sdk_record fs l
                  else map_of rv l)"
    using m m1 by auto
  ultimately show ?case by blast
qed

text \<open>
  C7, as the code has it. Let the directory \<open>sdks\<close> be listed, and let every link file
  either fail to open (any error of the operating system) or hold a JSON object whose
  \<open>canonical\<close> entry is a string that \<open>get_package\<close> resolves without raising. Then
  \<open>get_sdks\<close> returns a dictionary, and the dictionary maps the short name of an SDK to the
  latest record of the package that its link file names; an SDK whose link file cannot be
  opened, or whose identifier resolves to nothing, has no entry, and the listing does not
  fail.
\<close>

theorem get_sdks_skips_unreadable_links:
  assumes "fs_listdir fs ''sdks'' = Inr links"
    and "\<forall>link \<in> set links. link_ok fs link"
  shows "\<exists>rv t. get_sdks fs = (Inr rv, t)
               \<and> (\<forall>link. map_of rv link =
                            (if link \<in> set links then sdk_record fs link else None))"
proof -
  have p: "Registry_path [''sdks''] = Inr ''sdks''"
    using Registry_path_valid [of "[''sdks'']"] by (simp add: validate_constants)
  from get_sdks_loop_ok [OF assms(2), of "[]"] obtain rv t where
    r: "get_sdks_loop fs links [] = (Inr rv, t)"
    and m: "\<forall>l. map_of rv l =
                 (if l \<in> set links \<and> sdk_record fs l \<noteq> None then sdk_record fs l
                  else map_of [] l)" by blast
  from p assms(1) r have "get_sdks fs = (Inr rv, Listdir ''sdks'' # t)"
    by (simp add: get_sdks_def after_def)
  moreover from m have "\<forall>link. map_of rv link =
                            (if link \<in> set links then sdk_record fs link else None)"
    by auto
  ultimately show ?thesis by blast
qed

theorem get_sdks_skips_unreadable_links_witness:
  "fs_open fs_example (link_path ''orphan'') = Inl FileNotFoundError
   \<and> (\<exists>rv t. get_sdks fs_example = (Inr rv, t)
        \<and> rv = [(''react'', PackageInfo react_record)]
        \<and> map_of rv ''react'' = sdk_record fs_example ''react''
        \<and> map_of rv ''orphan'' = None)"
proof -
  have l: "fs_listdir fs_example ''sdks'' = Inr [''react'', ''orphan'']" by code_simp
  have o: "fs_open fs_example (link_path ''orphan'') = Inl FileNotFoundError" by code_simp
  have k1: "link_ok fs_example ''react''" by code_simp
  have k2: "link_ok fs_example ''orphan''" by code_simp
  have k: "\<forall>link \<in> set [''react'', ''orphan'']. link_ok fs_example link"
    using k1 k2 by simp
  have s: "sdk_record fs_example ''orphan'' = None" by code_simp
  have ev: "fst (get_sdks fs_example) = Inr [(''react'', PackageInfo react_record)]"
    by code_simp
  from get_sdks_skips_unreadable_links [OF l k] obtain rv t where
    r: "get_sdks fs_example = (Inr rv, t)"
    and m: "\<forall>link. map_of rv link =
              (if link \<in> set [''react'', ''orphan''] then sdk_record fs_example link else None)"
    by blast
  from r ev have "rv = [(''react'', PackageInfo react_record)]" by simp
  moreover from m have "map_of rv ''react'' = sdk_record fs_example ''react''" by simp
  moreover from m s have "map_of rv ''orphan'' = None" by simp
  ultimately show ?thesis using r o by blast
qed

text \<open>
  C7, as the claim states it, also promises that an invalid link file is skipped. The
  handler of \<open>get_sdks\<close> catches \<open>IOError\<close> and \<open>OSError\<close> only: a link file that is no JSON
  document makes \<open>json.load\<close> raise, and the whole listing fails.
\<close>

theorem garbage_link_fails_listing:
  "fs_open fs_broken_link ''sdks/ember/latest.json'' = Inr Garbage
   \<and> get_sdks fs_broken_link =
       (Inl JSONDecodeError,
        [Listdir ''sdks'', Open ''sdks/react/latest.json'',
         Open ''packages/npm/react/latest.json'', Open ''sdks/ember/latest.json''])"
  by code_simp

subsection \<open>Marketing slugs\<close>

lemma slugs_Registry_path:
  "Registry_path [''misc'', ''marketing-slugs.json''] = Inr ''misc/marketing-slugs.json''"
  using Registry_path_valid [of "[''misc'', ''marketing-slugs.json'']"]
  by (simp add: validate_constants)

lemma get_marketing_slugs_loaded:
  "fs_open fs ''misc/marketing-slugs.json'' = Inr (Doc j) \<Longrightarrow>
   get_marketing_slugs fs = (Inr j, [Open ''misc/marketing-slugs.json''])"
  by (simp add: get_marketing_slugs_def slugs_Registry_path load_or_raise_def)

lemma package_reference_resolved:
  assumes "package_reference data = Some ref" and "resolve_reference fs ref = (Inr r, t)"
  shows "(case dict_get data ''package'' of
            Inl e \<Rightarrow> (Inl e, [])
          | Inr package \<Rightarrow>
              if truthy package then get_package_dyn fs package ''latest''
              else (Inr None, [])) = (Inr r, t)"
  using assms
  by (auto simp: package_reference_def resolve_reference_def get_package_dyn_def
           split: sum.splits json.splits if_splits)

lemma resolve_integration_reference:
  assumes "subscript data ''integration'' = Inr label"
    and "(case dict_get data ''sdk'' of
            Inr (JStr sdk_id) \<Rightarrow>
              if sdk_id \<noteq> [] then Some (SdkRef sdk_id) else package_reference data
          | Inr JNull \<Rightarrow> package_reference data
          | _ \<Rightarrow> None) = Some ref"
    and "resolve_reference fs ref = (Inr r, t)"
  shows "resolve_integration fs data =
           (Inr (map_option (\<lambda>p. TargetIntegration p label) r), t)"
proof -
  from assms(2) obtain sdk where d: "dict_get data ''sdk'' = Inr sdk"
    by (auto split: sum.splits)
  show ?thesis
  proof (cases "truthy sdk")
    case True
    with assms(2) d obtain sdk_id where s: "sdk = JStr sdk_id" "ref = SdkRef sdk_id"
      by (auto split: json.splits if_splits)
    with assms(1,3) d True show ?thesis
      by (cases r) (auto simp: resolve_integration_def resolve_reference_def get_sdk_dyn_def)
  next
    case False
    with assms(2) d have "package_reference data = Some ref"
      by (auto split: json.splits if_splits)
    from package_reference_resolved [OF this assms(3)] assms(1) d False show ?thesis
      by (cases r) (auto simp: resolve_integration_def)
  qed
qed

lemma resolve_target_reference:
  assumes "reference_of data = Some ref" and "resolve_reference fs ref = (Inr r, t)"
  shows "\<exists>tgt. resolve_target fs data = (Inr tgt, t)
             \<and> (tgt = None \<longleftrightarrow> r = None)
             \<and> (\<forall>p. r = Some p \<longrightarrow>
                    tgt = Some (if subscript data ''type'' = Inr (JStr ''integration'')
                                then TargetIntegration p (projr (subscript data ''integration''))
                                else TargetPackage p))"
proof -
  from assms(1) obtain ty where ty: "subscript data ''type'' = Inr ty"
    by (auto simp: reference_of_def split: sum.splits)
  consider (sdk) "ty = JStr ''sdk''" | (package) "ty = JStr ''package''"
    | (integration) "ty = JStr ''integration''"
    | (other) "ty \<noteq> JStr ''sdk''" "ty \<noteq> JStr ''package''" "ty \<noteq> JStr ''integration''"
    by blast
  then show ?thesis
  proof cases
    case sdk
    with assms(1) ty obtain sdk_id where "subscript data ''target'' = Inr (JStr sdk_id)"
      "ref = SdkRef sdk_id"
      by (auto simp: reference_of_def split: sum.splits json.splits)
    with assms(2) ty sdk show ?thesis
      by (cases r) (auto simp: resolve_target_def resolve_reference_def get_sdk_dyn_def)
  next
    case package
    with assms(1) ty obtain canonical where "subscript data ''target'' = Inr (JStr canonical)"
      "ref = PackageRef canonical"
      by (auto simp: reference_of_def split: sum.splits json.splits)
    with assms(2) ty package show ?thesis
      by (cases r) (auto simp: resolve_target_def resolve_reference_def get_package_dyn_def)
  next
    case integration
    with assms(1) ty obtain label where l: "subscript data ''integration'' = Inr label"
      and c: "(case dict_get data ''sdk'' of
            Inr (JStr sdk_id) \<Rightarrow>
              if sdk_id \<noteq> [] then Some (SdkRef sdk_id) else package_reference data
          | Inr JNull \<Rightarrow> package_reference data
          | _ \<Rightarrow> None) = Some ref"
      by (auto simp: reference_of_def split: sum.splits)
    from resolve_integration_reference [OF l c assms(2)] ty integration l show ?thesis
      by (cases r) (auto simp: resolve_target_def)
  next
    case other
    with assms ty show ?thesis
      by (auto simp: reference_of_def resolve_target_def resolve_reference_def)
  qed
qed

text \<open>On a reference that can be followed, \<open>get_package\<close> and \<open>get_sdk\<close> return the record
  that the tree holds for it.\<close>

lemma get_package_latest_record:
  assumes "package_readable fs canonical"
  shows "\<exists>t. get_package fs canonical ''latest'' = (Inr (latest_record fs canonical), t)"
proof (cases "CHR '':'' \<in> set canonical")
  case False
  then show ?thesis by (simp add: get_package_def latest_record_def)
next
  case True
  with assms have v: "validate_path_component (fst (split_colon canonical)) = Inr ()"
    "validate_path_component (snd (split_colon canonical)) = Inr ()"
    and g: "fs_open fs (latest_path canonical) \<noteq> Inr Garbage"
    by (simp_all add: package_readable_def)
  from v have p: "Registry_path [''packages'', fst (split_colon canonical),
                                 snd (split_colon canonical), ''latest'' @ ''.json'']
                  = Inr (latest_path canonical)"
    using Registry_path_valid [of "[''packages'', fst (split_colon canonical),
                                    snd (split_colon canonical), ''latest'' @ ''.json'']"]
    by (simp add: validate_constants latest_path_join del: join_path.simps)
  show ?thesis
  proof (cases "fs_open fs (latest_path canonical)")
    case (Inl e)
    with True p show ?thesis by (simp add: get_package_cases latest_record_def)
  next
    case (Inr content)
    with g obtain j where "content = Doc j" by (cases content) auto
    with Inr True p show ?thesis by (simp add: get_package_cases latest_record_def)
  qed
qed

lemma get_sdk_latest_record:
  assumes "sdk_readable fs sdk_id"
  shows "\<exists>t. get_sdk fs sdk_id ''latest'' = (Inr (sdk_latest_record fs sdk_id), t)"
proof -
  from assms have v: "validate_path_component sdk_id = Inr ()" by (simp add: sdk_readable_def)
  show ?thesis
  proof (cases "fs_open fs (link_path sdk_id)")
    case (Inl e)
    then show ?thesis
      by (simp add: get_sdk_def read_link_cases [OF v] sdk_latest_record_def)
  next
    case (Inr content)
    with assms obtain j canonical where c: "content = Doc j"
      and s: "subscript j ''canonical'' = Inr (JStr canonical)"
      and r: "package_readable fs canonical"
      by (auto simp: sdk_readable_def split: file_content.splits sum.splits json.splits)
    from get_package_latest_record [OF r] obtain t where
      "get_package fs canonical ''latest'' = (Inr (latest_record fs canonical), t)" by blast
    with Inr c s show ?thesis
      by (simp add: get_sdk_def read_link_cases [OF v] sdk_latest_record_def
                    get_package_dyn_def after_def)
  qed
qed

lemma resolve_reference_record:
  assumes "reference_readable fs ref"
  shows "\<exists>t. resolve_reference fs ref = (Inr (referenced_record fs ref), t)"
proof (cases ref)
  case (SdkRef sdk_id)
  with assms get_sdk_latest_record [of fs sdk_id] show ?thesis
    by (simp add: reference_readable_def resolve_reference_def referenced_record_def)
next
  case (PackageRef canonical)
  with assms get_package_latest_record [of fs canonical] show ?thesis
    by (simp add: reference_readable_def resolve_reference_def referenced_record_def)
next
  case NoRef
  then show ?thesis by (simp add: resolve_reference_def referenced_record_def)
qed

text \<open>
  C6, as the code has it. Let the slug mapping be loaded. For a slug that the mapping
  does not hold, \<open>resolve_marketing_slug\<close> returns \<open>None\<close>. For a slug that it holds, with a
  definition of the form of the data model whose reference can be followed without an
  exception, it returns a result: the result holds the definition as it stands in the
  mapping, and its target is \<open>None\<close> exactly when the tree holds no latest record for the
  SDK or package that the definition refers to; otherwise the target is that record, for
  an integration together with the integration label.
\<close>

theorem slug_resolution:
  assumes "fs_open fs ''misc/marketing-slugs.json'' = Inr (Doc (JObj slugs))"
  shows "(map_of slugs slug = None
          \<longrightarrow> resolve_marketing_slug fs slug = (Inr None, [Open ''misc/marketing-slugs.json'']))
       \<and> (map_of slugs slug = Some data \<and> reference_of data = Some ref
            \<and> reference_readable fs ref
          \<longrightarrow> (\<exists>res t. resolve_marketing_slug fs slug = (Inr (Some res), t)
                    \<and> result_definition res = data
                    \<and> (result_target res = None \<longleftrightarrow> referenced_record fs ref = None)
                    \<and> (\<forall>p. referenced_record fs ref = Some p \<longrightarrow>
                          result_target res =
                            Some (if subscript data ''type'' = Inr (JStr ''integration'')
                                  then TargetIntegration p
                                         (projr (subscript data ''integration''))
                                  else TargetPackage p))))"
proof (intro conjI impI)
  assume "map_of slugs slug = None"
  then show "resolve_marketing_slug fs slug = (Inr None, [Open ''misc/marketing-slugs.json''])"
    using get_marketing_slugs_loaded [OF assms]
    by (simp add: resolve_marketing_slug_def dict_get_def)
next
  assume a: "map_of slugs slug = Some data \<and> reference_of data = Some ref
            \<and> reference_readable fs ref"
  then have n: "data \<noteq> JNull" by (auto simp: reference_of_def subscript_def)
  from a resolve_reference_record [of fs ref] obtain t where
    rr: "resolve_reference fs ref = (Inr (referenced_record fs ref), t)" by blast
  from a have ro: "reference_of data = Some ref" by simp
  from resolve_target_reference [OF ro rr] obtain tgt where
    tg: "resolve_target fs data = (Inr tgt, t)
         \<and> (tgt = None \<longleftrightarrow> referenced_record fs ref = None)
         \<and> (\<forall>p. referenced_record fs ref = Some p \<longrightarrow>
                    tgt = Some (if subscript data ''type'' = Inr (JStr ''integration'')
                                then TargetIntegration p (projr (subscript data ''integration''))
                                else TargetPackage p))" ..
  from tg have rt: "resolve_target fs data = (Inr tgt, t)" by (rule conjunct1)
  from tg have e: "tgt = None \<longleftrightarrow> referenced_record fs ref = None"
    by (elim conjE)
  from tg have k: "\<forall>p. referenced_record fs ref = Some p \<longrightarrow>
                    tgt = Some (if subscript data ''type'' = Inr (JStr ''integration'')
                                then TargetIntegration p (projr (subscript data ''integration''))
                                else TargetPackage p)"
    by (elim conjE)
  let ?res = "\<lparr>result_definition = data, result_target = tgt\<rparr>"
  have r: "resolve_marketing_slug fs slug =
          (Inr (Some ?res), Open ''misc/marketing-slugs.json'' # t)"
    using get_marketing_slugs_loaded [OF assms] a n rt
    by (simp add: resolve_marketing_slug_def dict_get_def)
  have d: "result_definition ?res = data" by simp
  have e': "result_target ?res = None \<longleftrightarrow> referenced_record fs ref = None"
    using e by simp
  have k': "\<forall>p. referenced_record fs ref = Some p \<longrightarrow>
                          result_target ?res =
                            Some (if subscript data ''type'' = Inr (JStr ''integration'')
                                  then TargetIntegration p
                                         (projr (subscript data ''integration''))
                                  else TargetPackage p)"
    using k by (simp only: slug_result.simps)
  from r d e' k'
  have "resolve_marketing_slug fs slug = (Inr (Some ?res), Open ''misc/marketing-slugs.json'' # t)
                    \<and> result_definition ?res = data
                    \<and> (result_target ?res = None \<longleftrightarrow> referenced_record fs ref = None)
                    \<and> (\<forall>p. referenced_record fs ref = Some p \<longrightarrow>
                          result_target ?res =
                            Some (if subscript data ''type'' = Inr (JStr ''integration'')
                                  then TargetIntegration p
                                         (projr (subscript data ''integration''))
                                  else TargetPackage p))"
    by (intro conjI)
  then show "\<exists>res t. resolve_marketing_slug fs slug = (Inr (Some res), t)
                    \<and> result_definition res = data
                    \<and> (result_target res = None \<longleftrightarrow> referenced_record fs ref = None)
                    \<and> (\<forall>p. referenced_record fs ref = Some p \<longrightarrow>
                          result_target res =
                            Some (if subscript data ''type'' = Inr (JStr ''integration'')
                                  then TargetIntegration p
                                         (projr (subscript data ''integration''))
                                  else TargetPackage p))"
    by (intro exI)
qed

theorem slug_resolution_witness:
  "resolve_marketing_slug fs_example ''nope'' = (Inr None, [Open ''misc/marketing-slugs.json''])
   \<and> (\<exists>res. fst (resolve_marketing_slug fs_example ''react'') = Inr (Some res)
          \<and> result_definition res = JObj [(''type'', JStr ''sdk''), (''target'', JStr ''react'')]
          \<and> result_target res = Some (TargetPackage (PackageInfo react_record)))
   \<and> (\<exists>res. fst (resolve_marketing_slug fs_example ''ghost'') = Inr (Some res)
          \<and> result_definition res
              = JObj [(''type'', JStr ''sdk''), (''target'', JStr ''missing-sdk'')]
          \<and> result_target res = None)
   \<and> (\<exists>res. fst (resolve_marketing_slug fs_example ''flask'') = Inr (Some res)
          \<and> result_target res
              = Some (TargetIntegration (PackageInfo flask_record) (JStr ''flask'')))"
proof -
  let ?react = "JObj [(''type'', JStr ''sdk''), (''target'', JStr ''react'')]"
  let ?ghost = "JObj [(''type'', JStr ''sdk''), (''target'', JStr ''missing-sdk'')]"
  let ?flask = "JObj [(''type'', JStr ''integration''),
                      (''package'', JStr ''python:sentry-sdk/flask''),
                      (''integration'', JStr ''flask'')]"
  let ?slugs = "[(''react'', ?react), (''ghost'', ?ghost), (''flask'', ?flask),
                 (''untyped'', JObj [(''target'', JStr ''react'')]),
                 (''dots'', JObj [(''type'', JStr ''sdk''), (''target'', JStr ''..'')])]"
  have o: "fs_open fs_example ''misc/marketing-slugs.json'' = Inr (Doc (JObj ?slugs))"
    by code_simp
  have m: "map_of ?slugs ''nope'' = None" "map_of ?slugs ''react'' = Some ?react"
    "map_of ?slugs ''ghost'' = Some ?ghost" "map_of ?slugs ''flask'' = Some ?flask"
    by simp_all
  have f: "reference_of ?react = Some (SdkRef ''react'')"
    "reference_of ?ghost = Some (SdkRef ''missing-sdk'')"
    "reference_of ?flask = Some (PackageRef ''python:sentry-sdk/flask'')"
    by code_simp+
  have q: "reference_readable fs_example (SdkRef ''react'')"
    "reference_readable fs_example (SdkRef ''missing-sdk'')"
    "reference_readable fs_example (PackageRef ''python:sentry-sdk/flask'')"
    by code_simp+
  have r: "referenced_record fs_example (SdkRef ''react'') = Some (PackageInfo react_record)"
    "referenced_record fs_example (SdkRef ''missing-sdk'') = None"
    "referenced_record fs_example (PackageRef ''python:sentry-sdk/flask'')
       = Some (PackageInfo flask_record)"
    by code_simp+
  have l: "subscript ?flask ''integration'' = Inr (JStr ''flask'')"
    "subscript ?flask ''type'' = Inr (JStr ''integration'')"
    "subscript ?react ''type'' = Inr (JStr ''sdk'')"
    by code_simp+
  note t = slug_resolution [OF o]
  have a: "resolve_marketing_slug fs_example ''nope''
             = (Inr None, [Open ''misc/marketing-slugs.json''])"
    using t [of "''nope''"] m(1) by blast
  have b: "\<exists>res. fst (resolve_marketing_slug fs_example ''react'') = Inr (Some res)
          \<and> result_definition res = ?react
          \<and> result_target res = Some (TargetPackage (PackageInfo react_record))"
    using t [of "''react''" ?react "SdkRef ''react''"] m(2) f(1) q(1) r(1) l(3) by auto
  have c: "\<exists>res. fst (resolve_marketing_slug fs_example ''ghost'') = Inr (Some res)
          \<and> result_definition res = ?ghost \<and> result_target res = None"
    using t [of "''ghost''" ?ghost "SdkRef ''missing-sdk''"] m(3) f(2) q(2) r(2) by auto
  have d: "\<exists>res. fst (resolve_marketing_slug fs_example ''flask'') = Inr (Some res)
          \<and> result_target res
              = Some (TargetIntegration (PackageInfo flask_record) (JStr ''flask''))"
    using t [of "''flask''" ?flask "PackageRef ''python:sentry-sdk/flask''"]
      m(4) f(3) q(3) r(3) l(1,2) by auto
  from a b c d show ?thesis by blast
qed

text \<open>
  C6, as the claim states it, promises a result with the definition for every slug that
  the mapping holds. The mapping of the example tree holds the slug \<open>untyped\<close>, whose
  definition has no \<open>type\<close>, and the slug \<open>dots\<close>, of type \<open>sdk\<close> with the target \<open>..\<close>: for
  the first \<open>data['type']\<close> raises \<open>KeyError\<close>, for the second \<open>get_sdk\<close> raises
  \<open>InvalidPathComponent\<close>, and no definition is returned.
\<close>

theorem malformed_slug_raises:
  "dict_get example_slugs ''untyped'' = Inr (JObj [(''target'', JStr ''react'')])
   \<and> resolve_marketing_slug fs_example ''untyped''
       = (Inl KeyError, [Open ''misc/marketing-slugs.json''])
   \<and> dict_get example_slugs ''dots''
       = Inr (JObj [(''type'', JStr ''sdk''), (''target'', JStr ''..'')])
   \<and> resolve_marketing_slug fs_example ''dots''
       = (Inl InvalidPathComponent, [Open ''misc/marketing-slugs.json''])"
  by code_simp

end
